theory Spec2Isabelle
  imports Complex_Main
begin

section \<open>Cumulative reward series of \<open>plot_agent_reward\<close>\<close>

text \<open>
  \<open>plot_agent_reward(rewards)\<close> of \<open>play.py\<close> (lines 12 to 28) walks over its argument
  once, keeps a running \<open>total\<close> and appends the new total to the list
  \<open>cumulative_rewards\<close>, which is then handed to the plotting library.

  The local variables of the function are kept in a record, the argument among them, so
  that what the loop body writes and what it leaves alone is visible in the model. The
  element type is any type with an addition and a zero: Python adds ints or floats here.
\<close>

record 'a plot_locals =
  rewards_arg :: "'a list"
  total :: 'a
  cumulative_rewards :: "'a list"

text \<open>The body of the \<open>for reward in rewards\<close> loop: \<open>total += reward\<close>, then
  \<open>cumulative_rewards.append(total)\<close>.\<close>

definition plot_body :: "'a::plus \<Rightarrow> 'a plot_locals \<Rightarrow> 'a plot_locals" where
  "plot_body reward s =
     (let s1 = s\<lparr>total := total s + reward\<rparr>
      in s1\<lparr>cumulative_rewards := cumulative_rewards s1 @ [total s1]\<rparr>)"

fun plot_loop :: "'a::plus list \<Rightarrow> 'a plot_locals \<Rightarrow> 'a plot_locals" where
  "plot_loop [] s = s"
| "plot_loop (reward # rest) s = plot_loop rest (plot_body reward s)"

text \<open>The locals at the point where \<open>plt.plot(cumulative_rewards)\<close> is called.\<close>

definition plot_locals_final :: "'a::{plus,zero} list \<Rightarrow> 'a plot_locals" where
  "plot_locals_final rewards =
     plot_loop rewards \<lparr>rewards_arg = rewards, total = 0, cumulative_rewards = []\<rparr>"

text \<open>The series that is rendered.\<close>

definition rendered_series :: "'a::{plus,zero} list \<Rightarrow> 'a list" where
  "rendered_series rewards = cumulative_rewards (plot_locals_final rewards)"

section \<open>Python values the program handles\<close>

text \<open>
  The exceptions that can reach \<open>play.py\<close>. In Python 3 \<open>IOError\<close> is another name of
  \<open>OSError\<close>; \<open>FileNotFoundError\<close>, \<open>IsADirectoryError\<close> and \<open>PermissionError\<close> are
  its subclasses. \<open>pickle.UnpicklingError\<close>, \<open>EOFError\<close>, \<open>AttributeError\<close> and
  \<open>AssertionError\<close> are not.
\<close>

datatype exn =
    FileNotFoundError
  | IsADirectoryError
  | PermissionError
  | OSError
  | UnpicklingError
  | EOFError
  | AttributeError
  | AssertionError string

text \<open>What \<open>except IOError\<close> catches.\<close>

fun is_IOError :: "exn \<Rightarrow> bool" where
  "is_IOError FileNotFoundError = True"
| "is_IOError IsADirectoryError = True"
| "is_IOError PermissionError = True"
| "is_IOError OSError = True"
| "is_IOError UnpicklingError = False"
| "is_IOError EOFError = False"
| "is_IOError AttributeError = False"
| "is_IOError (AssertionError m) = False"

text \<open>
  How a piece of the program ends: it returns, it calls \<open>sys.exit(n)\<close> (nothing in
  \<open>play.py\<close> catches \<open>SystemExit\<close>, so the interpreter ends with status \<open>n\<close>), or an
  exception leaves it uncaught (a traceback and a non-zero status).
\<close>

datatype outcome = Returned | Exit int | Raised exn

text \<open>\<open>str.lower()\<close> on the ASCII letters: an upper-case letter gets bit 5 set.\<close>

definition lower_char :: "char \<Rightarrow> char" where
  "lower_char c =
     (case c of Char b0 b1 b2 b3 b4 b5 b6 b7 \<Rightarrow>
        if 65 \<le> (of_char c :: nat) \<and> (of_char c :: nat) \<le> 90
        then Char b0 b1 b2 b3 b4 True b6 b7 else c)"

definition lower :: "string \<Rightarrow> string" where
  "lower s = map lower_char s"

section \<open>The learning agent\<close>

datatype cell = Empty | MarkX | MarkO

type_synonym state_key = "cell list"

text \<open>
  Modelled from the spec: the class \<open>Qlearner\<close> of \<open>agent.py\<close>, which is not among the
  sources. The spec (section 3) gives the agent a value table from (state key, action
  index) to an estimate, the hyperparameters alpha, gamma and epsilon, and the list of
  per-episode rewards. \<open>play.py\<close> reads the attribute \<open>rewards\<close> and calls the
  constructor with \<open>(alpha, gamma, epsilon)\<close>.
\<close>

record qlearner =
  alpha :: real
  gamma :: real
  eps :: real
  q_table :: "state_key \<times> nat \<rightharpoonup> real"
  rewards :: "real list"

text \<open>
  Modelled from the spec: the constructor \<open>Qlearner(alpha, gamma, epsilon)\<close> of
  \<open>agent.py\<close>: it stores the three hyperparameters; the table and the reward history
  start empty.
\<close>

definition Qlearner :: "real \<Rightarrow> real \<Rightarrow> real \<Rightarrow> qlearner" where
  "Qlearner al ga ep =
     \<lparr>alpha = al, gamma = ga, eps = ep, q_table = Map.empty, rewards = []\<rparr>"

text \<open>
  Modelled from the spec: a lookup in the value table, with the default 0.0 for a pair
  that has no entry (spec section 3, invariant of the agent).
\<close>

definition q_get :: "qlearner \<Rightarrow> state_key \<Rightarrow> nat \<Rightarrow> real" where
  "q_get ag s a = (case q_table ag (s, a) of None \<Rightarrow> 0 | Some v \<Rightarrow> v)"

text \<open>
  Modelled from the spec: \<open>legal_moves\<close> of a board (section 4.1), the indices of its
  empty cells in order, read off the state key.
\<close>

definition legal_moves :: "state_key \<Rightarrow> nat list" where
  "legal_moves s = filter (\<lambda>i. s ! i = Empty) [0..<length s]"

text \<open>
  Modelled from the spec: the greatest estimate over the actions legal at the next
  state (section 4.3); 0 when there is none.
\<close>

definition max_next :: "qlearner \<Rightarrow> state_key \<Rightarrow> real" where
  "max_next ag s' =
     (case legal_moves s' of
        [] \<Rightarrow> 0
      | a # as \<Rightarrow> foldl max (q_get ag s' a) (map (q_get ag s') as))"

text \<open>A transition tuple (spec section 3): state key, action, reward, next state key,
  terminal flag.\<close>

type_synonym transition = "state_key \<times> nat \<times> real \<times> state_key \<times> bool"

text \<open>
  Modelled from the spec: the method \<open>update\<close> of \<open>agent.py\<close> (section 4.3),
  \<open>Q(s,a) \<leftarrow> Q(s,a) + alpha * (reward + gamma * max_a' Q(s',a') * (1 - done) - Q(s,a))\<close>,
  over the reals.
\<close>

fun update :: "qlearner \<Rightarrow> transition \<Rightarrow> qlearner" where
  "update ag (s, a, reward, s', done) =
     ag\<lparr>q_table := (q_table ag)((s, a) \<mapsto>
        q_get ag s a
        + alpha ag * (reward + gamma ag * max_next ag s' * (1 - (if done then 1 else 0))
                      - q_get ag s a))\<rparr>"

text \<open>Any number of update calls, one after the other.\<close>

definition updates :: "qlearner \<Rightarrow> transition list \<Rightarrow> qlearner" where
  "updates ag ts = foldl update ag ts"

section \<open>The world outside the program\<close>

text \<open>
  What a file holds, seen through \<open>pickle.load\<close>: the pickle of an agent, or bytes on
  which \<open>pickle.load\<close> raises the given exception. A path names a directory, a regular
  file that may not be read, or a regular file with its contents.
\<close>

datatype content = Pickled qlearner | Corrupt exn

datatype node = Directory | Unreadable | Readable content

text \<open>What the program does to the outside, in the order it does it.\<close>

datatype event =
    Print string
  | PrintGamesPlayed int
  | Prompt string
  | IsFile string
  | Open string
  | Plot "real list"
  | GameNew bool
  | GameDone
  | Save string

text \<open>
  The lines still to be read from standard input, the file system and the trace of
  events so far.
\<close>

record world =
  stdin :: "string list"
  fs :: "string \<rightharpoonup> node"
  trace :: "event list"

definition emit :: "event list \<Rightarrow> world \<Rightarrow> world" where
  "emit evs w = w\<lparr>trace := trace w @ evs\<rparr>"

text \<open>\<open>os.path.isfile(path)\<close>: true for a regular file, whether readable or not.\<close>

definition isfile :: "string \<Rightarrow> world \<Rightarrow> bool \<times> world" where
  "isfile p w =
     ((case fs w p of
         None \<Rightarrow> False
       | Some Directory \<Rightarrow> False
       | Some Unreadable \<Rightarrow> True
       | Some (Readable c) \<Rightarrow> True),
      emit [IsFile p] w)"

text \<open>\<open>open(path, "rb")\<close>: the contents, or the \<open>OSError\<close> that the path gives.\<close>

definition open_rb :: "string \<Rightarrow> world \<Rightarrow> (exn + content) \<times> world" where
  "open_rb p w =
     ((case fs w p of
         None \<Rightarrow> Inl FileNotFoundError
       | Some Directory \<Rightarrow> Inl IsADirectoryError
       | Some Unreadable \<Rightarrow> Inl PermissionError
       | Some (Readable c) \<Rightarrow> Inr c),
      emit [Open p] w)"

definition pickle_load :: "content \<Rightarrow> exn + qlearner" where
  "pickle_load c = (case c of Pickled a \<Rightarrow> Inr a | Corrupt e \<Rightarrow> Inl e)"

text \<open>
  Modelled from the spec: the method \<open>save_agent(path)\<close> of \<open>agent.py\<close>, the opaque
  persistence of section 4.3: after it the file at the path holds the pickle of the
  agent.
\<close>

definition save_agent :: "qlearner \<Rightarrow> string \<Rightarrow> world \<Rightarrow> world" where
  "save_agent a p w = emit [Save p] (w\<lparr>fs := (fs w)(p \<mapsto> Readable (Pickled a))\<rparr>)"

text \<open>\<open>plot_agent_reward\<close> as an effect: the cumulative series is what is drawn.\<close>

definition plot_agent_reward :: "real list \<Rightarrow> world \<Rightarrow> world" where
  "plot_agent_reward rs w = emit [Plot (rendered_series rs)] w"

text \<open>
  The class \<open>Game\<close> of \<open>game_logic.py\<close> is not among the sources; it is a parameter.
  \<open>Game(agent, teacher).start()\<close> is given whether there is a teacher, the agent and
  the pending input; it raises, or returns the agent as the game leaves it together with
  the number of input lines the game has read. A game that raises ends the run with its
  exception; what it had done to the agent by then is left out. The event \<open>GameNew\<close>
  stands for the construction of the game, \<open>GameDone\<close> for the return of \<open>start()\<close>.
\<close>

type_synonym game = "bool \<Rightarrow> qlearner \<Rightarrow> string list \<Rightarrow> exn + (qlearner \<times> nat)"

definition Game_start :: "game \<Rightarrow> bool \<Rightarrow> qlearner \<Rightarrow> world \<Rightarrow> (exn + qlearner) \<times> world" where
  "Game_start g teacher a w =
     (case g teacher a (stdin w) of
        Inl e \<Rightarrow> (Inl e, emit [GameNew teacher] w)
      | Inr (a', n) \<Rightarrow>
          (Inr a', emit [GameNew teacher, GameDone] (w\<lparr>stdin := drop n (stdin w)\<rparr>)))"

section \<open>The class \<open>GameLearning\<close>\<close>

record args =
  load :: bool
  teacher_episodes :: "int option"
  plot :: bool

text \<open>The attributes of a \<open>GameLearning\<close> object; \<open>agent\<close> is \<open>None\<close> until
  \<open>__init__\<close> assigns it.\<close>

record GameLearning =
  games_played :: int
  agent_path :: string
  agent :: "qlearner option"

definition overwrite_prompt :: string where
  "overwrite_prompt =
     ''An agent state is already saved for this type. Are you sure you want to overwrite? [y/n]: ''"

definition invalid_input :: string where
  "invalid_input = ''Invalid input. Please choose 'y' or 'n'.''"

text \<open>
  The \<open>while True\<close> loop of \<open>__init__\<close> (lines 69 to 80) over the pending input lines;
  \<open>input()\<close> at the end of the input raises \<open>EOFError\<close>. It gives how the loop ends,
  the input left and the events of the loop.
\<close>

fun confirm_overwrite :: "string list \<Rightarrow> outcome \<times> string list \<times> event list" where
  "confirm_overwrite [] = (Raised EOFError, [], [Prompt overwrite_prompt])"
| "confirm_overwrite (response # rest) =
     (if lower response \<in> set [''y'', ''yes''] then
        (Returned, rest, [Prompt overwrite_prompt])
      else if lower response \<in> set [''n'', ''no''] then
        (Exit 0, rest, [Prompt overwrite_prompt, Print ''OK. Quitting.''])
      else
        (case confirm_overwrite rest of
           (out, rest', evs) \<Rightarrow>
             (out, rest', [Prompt overwrite_prompt, Print invalid_input] @ evs)))"

text \<open>The handler \<open>except IOError\<close> of lines 58 to 60; any other exception goes on.\<close>

definition load_failed :: "exn \<Rightarrow> GameLearning \<Rightarrow> world \<Rightarrow> outcome \<times> GameLearning \<times> world" where
  "load_failed e self w =
     (if is_IOError e then
        (Exit 0, self, emit [Print ''The agent file does not exist. Quitting.''] w)
      else (Raised e, self, w))"

text \<open>\<open>GameLearning.__init__(self, args, alpha, gamma, epsilon)\<close>, lines 49 to 83.\<close>

definition GameLearning_init ::
  "args \<Rightarrow> real \<Rightarrow> real \<Rightarrow> real \<Rightarrow> world \<Rightarrow> outcome \<times> GameLearning \<times> world" where
  "GameLearning_init a al ga ep w =
     (let self = \<lparr>games_played = 0, agent_path = ''./trained_agent.pkl'', agent = None\<rparr> in
      if load a then
        (case open_rb (agent_path self) w of
           (Inl e, w1) \<Rightarrow> load_failed e self w1
         | (Inr c, w1) \<Rightarrow>
             (case pickle_load c of
                Inl e \<Rightarrow> load_failed e self w1
              | Inr ag \<Rightarrow>
                  (let self1 = self\<lparr>agent := Some ag\<rparr> in
                   if plot a then (Exit 0, self1, plot_agent_reward (rewards ag) w1)
                   else (Returned, self1, w1))))
      else
        (case isfile (agent_path self) w of
           (True, w1) \<Rightarrow>
             (case confirm_overwrite (stdin w1) of
                (Returned, rest, evs) \<Rightarrow>
                  (Returned, self\<lparr>agent := Some (Qlearner al ga ep)\<rparr>,
                   emit evs (w1\<lparr>stdin := rest\<rparr>))
              | (out, rest, evs) \<Rightarrow> (out, self, emit evs (w1\<lparr>stdin := rest\<rparr>)))
         | (False, w1) \<Rightarrow> (Returned, self\<lparr>agent := Some (Qlearner al ga ep)\<rparr>, w1)))"

text \<open>\<open>GameLearning(args)\<close>: the default values of the signature in line 49.\<close>

definition GameLearning_new :: "args \<Rightarrow> world \<Rightarrow> outcome \<times> GameLearning \<times> world" where
  "GameLearning_new a w = GameLearning_init a 0.5 0.9 0.1 w"

section \<open>Interactive play: \<open>beginPlaying\<close>\<close>

definition play_prompt :: string where
  "play_prompt = ''Do you want to play again? [y/n]: ''"

text \<open>The \<open>while True\<close> loop of the inner function \<open>play_again\<close> (lines 93 to 100).\<close>

fun play_again_loop :: "string list \<Rightarrow> (exn + bool) \<times> string list \<times> event list" where
  "play_again_loop [] = (Inl EOFError, [], [Prompt play_prompt])"
| "play_again_loop (play # rest) =
     (if lower play \<in> set [''y'', ''yes''] then (Inr True, rest, [Prompt play_prompt])
      else if lower play \<in> set [''n'', ''no''] then (Inr False, rest, [Prompt play_prompt])
      else
        (case play_again_loop rest of
           (r, rest', evs) \<Rightarrow> (r, rest', [Prompt play_prompt, Print invalid_input] @ evs)))"

text \<open>\<open>play_again()\<close>: the count is printed, then the loop runs.\<close>

definition play_again :: "GameLearning \<Rightarrow> world \<Rightarrow> (exn + bool) \<times> world" where
  "play_again self w =
     (case play_again_loop (stdin w) of
        (r, rest, evs) \<Rightarrow>
          (r, emit (PrintGamesPlayed (games_played self) # evs) (w\<lparr>stdin := rest\<rparr>)))"

lemma play_again_loop_shorter:
  "play_again_loop xs = (Inr b, rest, evs) \<Longrightarrow> length rest < length xs"
  by (induction xs arbitrary: evs) (auto split: if_splits prod.splits)

lemma play_again_shorter:
  "play_again self w = (Inr b, w') \<Longrightarrow> length (stdin w') < length (stdin w)"
  by (auto simp: play_again_def emit_def split: prod.splits dest: play_again_loop_shorter)

lemma Game_start_stdin:
  "Game_start g t a w = (r, w') \<Longrightarrow> length (stdin w') \<le> length (stdin w)"
  by (auto simp: Game_start_def emit_def split: sum.splits prod.splits)

text \<open>
  The \<open>while True\<close> loop of \<open>beginPlaying\<close> (lines 102 to 108). Every round that goes
  on has read an answer from the input, so the pending input gets shorter.
\<close>

function playing_loop :: "game \<Rightarrow> GameLearning \<Rightarrow> world \<Rightarrow> outcome \<times> GameLearning \<times> world" where
  "playing_loop g self w =
     (case agent self of
        None \<Rightarrow> (Raised AttributeError, self, w)
      | Some a \<Rightarrow>
          (case Game_start g False a w of
             (Inl e, w1) \<Rightarrow> (Raised e, self, w1)
           | (Inr a', w1) \<Rightarrow>
               (let self1 = self\<lparr>agent := Some a', games_played := games_played self + 1\<rparr> in
                case play_again self1 w1 of
                  (Inl e, w2) \<Rightarrow> (Raised e, self1, w2)
                | (Inr True, w2) \<Rightarrow> playing_loop g self1 w2
                | (Inr False, w2) \<Rightarrow> (Returned, self1, emit [Print ''OK. Quitting.''] w2))))"
  by pat_completeness auto
termination
  apply (relation "measure (\<lambda>(g, self, w). length (stdin w))")
   apply simp
  apply simp
  apply (metis Game_start_stdin play_again_shorter less_le_trans)
  done

declare playing_loop.simps [simp del]

definition beginPlaying :: "game \<Rightarrow> GameLearning \<Rightarrow> world \<Rightarrow> outcome \<times> GameLearning \<times> world" where
  "beginPlaying g self w =
     playing_loop g self
       (emit [Print ''Welcome to Tic-Tac-Toe. You are 'X' and the computer is 'O'.''] w)"

section \<open>Training: \<open>beginTeaching\<close>\<close>

text \<open>
  The \<open>while self.games_played < episodes\<close> loop (lines 116 to 123); the distance of
  the count from \<open>episodes\<close> shrinks with every game.
\<close>

function teach_loop :: "game \<Rightarrow> int \<Rightarrow> GameLearning \<Rightarrow> world \<Rightarrow> outcome \<times> GameLearning \<times> world" where
  "teach_loop g episodes self w =
     (if games_played self < episodes then
        (case agent self of
           None \<Rightarrow> (Raised AttributeError, self, w)
         | Some a \<Rightarrow>
             (case Game_start g True a w of
                (Inl e, w1) \<Rightarrow> (Raised e, self, w1)
              | (Inr a', w1) \<Rightarrow>
                  (let self1 = self\<lparr>agent := Some a', games_played := games_played self + 1\<rparr> in
                   teach_loop g episodes self1
                     (if games_played self1 mod 1000 = 0
                      then emit [PrintGamesPlayed (games_played self1)] w1 else w1))))
      else (Returned, self, w))"
  by pat_completeness auto
termination
  by (relation "measure (\<lambda>(g, episodes, self, w). nat (episodes - games_played self))") auto

declare teach_loop.simps [simp del]

text \<open>\<open>beginTeaching(episodes)\<close>: the loop, then lines 125 and 126.\<close>

definition beginTeaching ::
  "game \<Rightarrow> int \<Rightarrow> GameLearning \<Rightarrow> world \<Rightarrow> outcome \<times> GameLearning \<times> world" where
  "beginTeaching g episodes self w =
     (case teach_loop g episodes self w of
        (Returned, self1, w1) \<Rightarrow>
          (case agent self1 of
             None \<Rightarrow> (Raised AttributeError, self1, w1)
           | Some a \<Rightarrow>
               (Returned, self1,
                save_agent a (agent_path self1) (plot_agent_reward (rewards a) w1)))
      | (out, self1, w1) \<Rightarrow> (out, self1, w1))"

section \<open>The script\<close>

text \<open>
  Lines 150 to 160, after the arguments are parsed. The object is \<open>None\<close> when the run
  ends before \<open>GameLearning(args)\<close> is reached.
\<close>

definition main :: "game \<Rightarrow> args \<Rightarrow> world \<Rightarrow> outcome \<times> GameLearning option \<times> world" where
  "main g a w =
     (if plot a \<and> \<not> load a then
        (Raised (AssertionError ''Must load an agent to plot reward.''), None, w)
      else if plot a \<and> teacher_episodes a \<noteq> None then
        (Raised (AssertionError
           ''Cannot plot and teach concurrently; must choose one or the other.''), None, w)
      else
        (case GameLearning_new a w of
           (Returned, gl, w1) \<Rightarrow>
             (case teacher_episodes a of
                Some n \<Rightarrow> (case beginTeaching g n gl w1 of (out, gl', w2) \<Rightarrow> (out, Some gl', w2))
              | None \<Rightarrow> (case beginPlaying g gl w1 of (out, gl', w2) \<Rightarrow> (out, Some gl', w2)))
         | (out, gl, w1) \<Rightarrow> (out, Some gl, w1)))"

text \<open>A run starts with nothing printed; the input and the files are the run's own.\<close>

definition start :: "string list \<Rightarrow> (string \<rightharpoonup> node) \<Rightarrow> world" where
  "start inp files = \<lparr>stdin = inp, fs = files, trace = []\<rparr>"

section \<open>Notions used to state the properties\<close>

text \<open>The two tests that both prompt loops make on an answer, after \<open>lower()\<close>.\<close>

abbreviation is_yes :: "string \<Rightarrow> bool" where
  "is_yes s \<equiv> lower s \<in> set [''y'', ''yes'']"

abbreviation is_no :: "string \<Rightarrow> bool" where
  "is_no s \<equiv> lower s \<in> set [''n'', ''no'']"

text \<open>The events of \<open>n\<close> rejected answers to the prompt \<open>p\<close>.\<close>

definition reprompts :: "string \<Rightarrow> nat \<Rightarrow> event list" where
  "reprompts p n = concat (replicate n [Prompt p, Print invalid_input])"

text \<open>The events of the training loop itself: games and the progress line, no prompt.\<close>

abbreviation teaching_events :: "event set" where
  "teaching_events \<equiv> {GameNew True, GameDone} \<union> range PrintGamesPlayed"

text \<open>The events of the play loop, and those of \<open>__init__\<close>.\<close>

abbreviation playing_events :: "event set" where
  "playing_events \<equiv>
     {GameNew False, GameDone, Prompt play_prompt, Print invalid_input, Print ''OK. Quitting.''}
     \<union> range PrintGamesPlayed"

abbreviation init_events :: "event set" where
  "init_events \<equiv>
     {IsFile ''./trained_agent.pkl'', Open ''./trained_agent.pkl''}
     \<union> range Plot \<union> range Print \<union> range Prompt"

text \<open>The paths that the events of a run look up, open or save to.\<close>

abbreviation named_paths :: "event list \<Rightarrow> string set" where
  "named_paths evs \<equiv> {p. IsFile p \<in> set evs \<or> Open p \<in> set evs \<or> Save p \<in> set evs}"

section \<open>Properties of the cumulative series\<close>

lemma plot_loop_rewards_arg:
  "rewards_arg (plot_loop rs s) = rewards_arg s"
  by (induction rs arbitrary: s) (simp_all add: plot_body_def Let_def)

lemma plot_loop_length:
  "length (cumulative_rewards (plot_loop rs s)) = length (cumulative_rewards s) + length rs"
  by (induction rs arbitrary: s) (simp_all add: plot_body_def Let_def)

lemma plot_loop_series:
  "cumulative_rewards (plot_loop rs s) =
     cumulative_rewards s @ map (\<lambda>k. foldl (+) (total s) (take (Suc k) rs)) [0..<length rs]"
proof (induction rs arbitrary: s)
  case Nil
  show ?case by simp
next
  case (Cons r rs)
  have shift: "map (\<lambda>k. foldl (+) (total s) (take (Suc k) (r # rs))) [0..<length (r # rs)] =
        (total s + r) # map (\<lambda>k. foldl (+) (total s + r) (take (Suc k) rs)) [0..<length rs]"
    by (simp add: upt_conv_Cons map_Suc_upt [symmetric] del: upt_Suc)
  show ?case
    by (simp only: plot_loop.simps Cons.IH shift)
       (simp add: plot_body_def Let_def)
qed

lemma rendered_series_foldl:
  "i < length rs \<Longrightarrow> rendered_series rs ! i = foldl (+) 0 (take (Suc i) rs)"
  by (simp add: rendered_series_def plot_locals_final_def plot_loop_series)

lemma foldl_plus_sum_list:
  "foldl (+) (a::'a::monoid_add) xs = a + sum_list xs"
  by (induction xs arbitrary: a) (simp_all add: add.assoc)

text \<open>
  Claim C5. For every list of per-episode rewards, the series that \<open>plot_agent_reward\<close>
  renders has the length of the input, its entry at index \<open>i\<close> is the sum of the first
  \<open>i + 1\<close> rewards taken in order (the left-to-right sum starting from zero, which in a
  monoid is \<open>sum_list\<close> of that prefix), and the argument list is the same list at the
  end of the loop as at its start.
\<close>

theorem plot_agent_reward_prefix_sums:
  fixes rewards :: "'a::monoid_add list"
  shows "length (rendered_series rewards) = length rewards
       \<and> (\<forall>i < length rewards.
            rendered_series rewards ! i = foldl (+) 0 (take (Suc i) rewards)
          \<and> rendered_series rewards ! i = sum_list (take (Suc i) rewards))
       \<and> rewards_arg (plot_locals_final rewards) = rewards"
proof -
  have len: "length (rendered_series rewards) = length rewards"
    by (simp add: rendered_series_def plot_locals_final_def plot_loop_length)
  have arg: "rewards_arg (plot_locals_final rewards) = rewards"
    by (simp add: plot_locals_final_def plot_loop_rewards_arg)
  have nth: "rendered_series rewards ! i = foldl (+) 0 (take (Suc i) rewards)
           \<and> rendered_series rewards ! i = sum_list (take (Suc i) rewards)"
    if "i < length rewards" for i
    using that by (simp add: rendered_series_foldl foldl_plus_sum_list)
  from len arg nth show ?thesis by blast
qed

theorem plot_agent_reward_prefix_sums_witness:
  "rendered_series [1, -1, 0, 1 :: int] = [1, 0, 0, 1]
   \<and> (1::nat) < length [1, -1, 0, 1 :: int]
   \<and> rendered_series [1, -1, 0, 1 :: int] ! 1 = sum_list (take (Suc 1) [1, -1, 0, 1])"
proof -
  have a: "rendered_series [1, -1, 0, 1 :: int] = [1, 0, 0, 1]"
    by (simp add: rendered_series_def plot_locals_final_def plot_body_def Let_def)
  have b: "(1::nat) < length [1, -1, 0, 1 :: int]" by simp
  from plot_agent_reward_prefix_sums [of "[1, -1, 0, 1 :: int]"] b
  have "rendered_series [1, -1, 0, 1 :: int] ! 1 = sum_list (take (Suc 1) [1, -1, 0, 1])"
    by blast
  with a b show ?thesis by blast
qed

section \<open>The value update at learning rate zero\<close>

lemma update_alpha: "alpha (update ag t) = alpha ag"
  by (cases t) simp

lemma update_alpha0_q_get:
  "alpha ag = 0 \<Longrightarrow> q_get (update ag t) s a = q_get ag s a"
  by (cases t) (auto simp: q_get_def split: option.splits)

text \<open>
  Claim C6. For an agent whose learning rate alpha is 0, the value update changes no
  estimate: after any sequence of update calls (whatever transitions the episodes feed
  in) the lookup of every pair of state key and action gives what it gave before, and
  alpha is still 0. The update is the one of the spec, over the reals; an update may
  add an entry for a pair that had none, but with the default value 0 that the lookup
  gave before.
\<close>

theorem update_noop_alpha0:
  assumes "alpha ag = 0"
  shows "q_get (updates ag ts) s a = q_get ag s a \<and> alpha (updates ag ts) = 0"
  using assms unfolding updates_def
proof (induction ts arbitrary: ag)
  case Nil
  then show ?case by simp
next
  case (Cons t ts)
  have "alpha (update ag t) = 0" using Cons.prems by (simp add: update_alpha)
  from Cons.IH [OF this] show ?case
    using Cons.prems by (simp add: update_alpha0_q_get)
qed

theorem update_noop_alpha0_witness:
  "alpha (Qlearner 0 0.9 0.1) = 0
   \<and> q_get (updates (Qlearner 0 0.9 0.1)
        [(replicate 9 Empty, 4, 1, (replicate 9 Empty)[4 := MarkX], False),
         ((replicate 9 Empty)[4 := MarkX], 0, -1, (replicate 9 Empty)[4 := MarkX, 0 := MarkO], True)])
        (replicate 9 Empty) 4 = 0"
proof -
  have a: "alpha (Qlearner 0 0.9 0.1) = 0" by (simp add: Qlearner_def)
  have b: "q_get (Qlearner 0 0.9 0.1) (replicate 9 Empty) 4 = 0"
    by (simp add: Qlearner_def q_get_def)
  from update_noop_alpha0 [OF a] b a show ?thesis by simp
qed

text \<open>With a learning rate other than 0 the same update does move the estimate.\<close>

lemma update_moves_estimate:
  "q_get (update (Qlearner 0.5 0.9 0.1) ([Empty], 0, 1, [MarkX], True)) [Empty] 0 = 1 / 2"
  by (simp add: Qlearner_def q_get_def max_next_def legal_moves_def)

section \<open>Conflicting flags\<close>

text \<open>
  Claim C3. When plotting is requested without loading, or together with training, the
  run ends at once with an \<open>AssertionError\<close> that carries the explanation: no
  \<open>GameLearning\<close> object (and so no agent) exists, and the world is as it was, so the
  agent file has been neither looked up, opened nor written.
\<close>

theorem conflicting_flags_fail_fast:
  assumes "plot a" and "\<not> load a \<or> teacher_episodes a \<noteq> None"
  shows "main g a w =
      (Raised (AssertionError
         (if \<not> load a then ''Must load an agent to plot reward.''
          else ''Cannot plot and teach concurrently; must choose one or the other.'')),
       None, w)"
  using assms by (auto simp: main_def)

theorem conflicting_flags_fail_fast_witness:
  "main (\<lambda>t ag inp. Inr (ag, 0)) \<lparr>load = False, teacher_episodes = None, plot = True\<rparr>
      (start [] Map.empty)
     = (Raised (AssertionError ''Must load an agent to plot reward.''), None, start [] Map.empty)
   \<and> main (\<lambda>t ag inp. Inr (ag, 0)) \<lparr>load = True, teacher_episodes = Some 10, plot = True\<rparr>
      (start [] Map.empty)
     = (Raised (AssertionError
         ''Cannot plot and teach concurrently; must choose one or the other.''),
        None, start [] Map.empty)"
  using conflicting_flags_fail_fast [of "\<lparr>load = False, teacher_episodes = None, plot = True\<rparr>"
          "\<lambda>t ag inp. Inr (ag, 0)" "start [] Map.empty"]
        conflicting_flags_fail_fast [of "\<lparr>load = True, teacher_episodes = Some 10, plot = True\<rparr>"
          "\<lambda>t ag inp. Inr (ag, 0)" "start [] Map.empty"]
  by simp

section \<open>Loading the agent file\<close>

text \<open>
  Claim C1, as stated, fails: with the load flag set and an agent file whose contents
  are not a pickle, \<open>pickle.load\<close> raises \<open>UnpicklingError\<close>, which \<open>except IOError\<close>
  does not catch; the run ends with that exception, not with a message and status 0.
\<close>

theorem corrupt_file_not_caught:
  "main (\<lambda>t ag inp. Inr (ag, 0)) \<lparr>load = True, teacher_episodes = None, plot = False\<rparr>
      (start [] [''./trained_agent.pkl'' \<mapsto> Readable (Corrupt UnpicklingError)])
   = (Raised UnpicklingError,
      Some \<lparr>games_played = 0, agent_path = ''./trained_agent.pkl'', agent = None\<rparr>,
      \<lparr>stdin = [], fs = [''./trained_agent.pkl'' \<mapsto> Readable (Corrupt UnpicklingError)],
       trace = [Open ''./trained_agent.pkl'']\<rparr>)"
  by (simp add: main_def GameLearning_new_def GameLearning_init_def open_rb_def pickle_load_def
      load_failed_def start_def emit_def)

text \<open>
  Claim C1, amended. In a run with the load flag (and no conflict of flags), let \<open>e\<close>
  be the exception with which opening or reading the agent file fails: the path is
  missing, names a directory or a file that may not be read, or \<open>pickle.load\<close> raises
  \<open>e\<close> on the contents. If \<open>e\<close> is an \<open>IOError\<close>, the run prints "The agent file does
  not exist. Quitting." and exits with status 0; any other exception, such as the
  deserialization error of a corrupt file, is not caught and ends the run. In both
  cases no agent exists and the file system is untouched.
\<close>

theorem load_failure_handling:
  assumes "load a" and "\<not> (plot a \<and> teacher_episodes a \<noteq> None)"
    and "fs w ''./trained_agent.pkl'' = None \<and> e = FileNotFoundError
       \<or> fs w ''./trained_agent.pkl'' = Some Directory \<and> e = IsADirectoryError
       \<or> fs w ''./trained_agent.pkl'' = Some Unreadable \<and> e = PermissionError
       \<or> fs w ''./trained_agent.pkl'' = Some (Readable (Corrupt e))"
  shows "main g a w =
     (if is_IOError e then
        (Exit 0, Some \<lparr>games_played = 0, agent_path = ''./trained_agent.pkl'', agent = None\<rparr>,
         w\<lparr>trace := trace w @ [Open ''./trained_agent.pkl'',
                                Print ''The agent file does not exist. Quitting.'']\<rparr>)
      else
        (Raised e, Some \<lparr>games_played = 0, agent_path = ''./trained_agent.pkl'', agent = None\<rparr>,
         w\<lparr>trace := trace w @ [Open ''./trained_agent.pkl'']\<rparr>))"
  using assms
  by (auto simp: main_def GameLearning_new_def GameLearning_init_def open_rb_def pickle_load_def
      load_failed_def emit_def)

theorem load_failure_handling_witness:
  "main (\<lambda>t ag inp. Inr (ag, 0)) \<lparr>load = True, teacher_episodes = None, plot = False\<rparr>
      (start [] Map.empty)
   = (Exit 0, Some \<lparr>games_played = 0, agent_path = ''./trained_agent.pkl'', agent = None\<rparr>,
      \<lparr>stdin = [], fs = Map.empty,
       trace = [Open ''./trained_agent.pkl'', Print ''The agent file does not exist. Quitting.'']\<rparr>)"
  using load_failure_handling [of "\<lparr>load = True, teacher_episodes = None, plot = False\<rparr>"
      "start [] Map.empty" FileNotFoundError "\<lambda>t ag inp. Inr (ag, 0)"]
  by (simp add: start_def)

section \<open>The overwrite confirmation\<close>

lemma reprompts_Suc: "reprompts p (Suc n) = Prompt p # Print invalid_input # reprompts p n"
  by (simp add: reprompts_def)

lemma reprompts_0: "reprompts p 0 = []"
  by (simp add: reprompts_def)

lemma confirm_overwrite_answer:
  assumes "\<forall>x\<in>set bad. \<not> is_yes x \<and> \<not> is_no x" and "is_yes r \<or> is_no r"
  shows "confirm_overwrite (bad @ r # rest) =
     (if is_yes r then
        (Returned, rest, reprompts overwrite_prompt (length bad) @ [Prompt overwrite_prompt])
      else
        (Exit 0, rest, reprompts overwrite_prompt (length bad)
           @ [Prompt overwrite_prompt, Print ''OK. Quitting.'']))"
  using assms
proof (induction bad)
  case Nil
  then show ?case by (auto simp: reprompts_0)
next
  case (Cons x bad)
  then have IH: "confirm_overwrite (bad @ r # rest) =
     (if is_yes r then
        (Returned, rest, reprompts overwrite_prompt (length bad) @ [Prompt overwrite_prompt])
      else
        (Exit 0, rest, reprompts overwrite_prompt (length bad)
           @ [Prompt overwrite_prompt, Print ''OK. Quitting.'']))"
    by simp
  from Cons.prems have x: "\<not> is_yes x" "\<not> is_no x" by simp_all
  have "confirm_overwrite ((x # bad) @ r # rest) =
      (case confirm_overwrite (bad @ r # rest) of
         (out, rest', evs) \<Rightarrow>
           (out, rest', [Prompt overwrite_prompt, Print invalid_input] @ evs))"
    using x by simp
  then show ?case by (simp add: IH reprompts_Suc)
qed

lemma confirm_overwrite_cases:
  "confirm_overwrite xs = (out, rest, evs) \<Longrightarrow>
     (out = Returned \<and> (\<exists>bad r. xs = bad @ r # rest \<and> (\<forall>x\<in>set bad. \<not> is_yes x \<and> \<not> is_no x) \<and> is_yes r))
   \<or> (out = Exit 0 \<and> (\<exists>bad r. xs = bad @ r # rest \<and> (\<forall>x\<in>set bad. \<not> is_yes x \<and> \<not> is_no x) \<and> is_no r \<and> \<not> is_yes r))
   \<or> (out = Raised EOFError \<and> rest = [] \<and> (\<forall>x\<in>set xs. \<not> is_yes x \<and> \<not> is_no x))"
proof (induction xs arbitrary: evs)
  case Nil
  then show ?case by simp
next
  case (Cons x xs)
  show ?case
  proof (cases "is_yes x")
    case True
    with Cons.prems have "out = Returned" "rest = xs" by simp_all
    with True have "out = Returned \<and> x # xs = [] @ x # rest \<and> is_yes x" by simp
    then show ?thesis by (metis empty_iff list.set(1))
  next
    case ny: False
    show ?thesis
    proof (cases "is_no x")
      case True
      with ny Cons.prems have "out = Exit 0" "rest = xs" by simp_all
      with True ny have "out = Exit 0 \<and> x # xs = [] @ x # rest \<and> is_no x \<and> \<not> is_yes x" by simp
      then show ?thesis by (metis empty_iff list.set(1))
    next
      case nn: False
      obtain evs' where rec: "confirm_overwrite xs = (out, rest, evs')"
        using Cons.prems ny nn by (auto split: prod.splits)
      from Cons.IH [OF rec] show ?thesis
      proof (elim disjE conjE exE)
        fix bad r
        assume "out = Returned" "xs = bad @ r # rest" "\<forall>x\<in>set bad. \<not> is_yes x \<and> \<not> is_no x" "is_yes r"
        then have "out = Returned \<and> x # xs = (x # bad) @ r # rest
            \<and> (\<forall>y\<in>set (x # bad). \<not> is_yes y \<and> \<not> is_no y) \<and> is_yes r"
          using ny nn by simp
        then show ?thesis by blast
      next
        fix bad r
        assume "out = Exit 0" "xs = bad @ r # rest" "\<forall>x\<in>set bad. \<not> is_yes x \<and> \<not> is_no x"
          "is_no r" "\<not> is_yes r"
        then have "out = Exit 0 \<and> x # xs = (x # bad) @ r # rest
            \<and> (\<forall>y\<in>set (x # bad). \<not> is_yes y \<and> \<not> is_no y) \<and> is_no r \<and> \<not> is_yes r"
          using ny nn by simp
        then show ?thesis by blast
      next
        assume "out = Raised EOFError" "rest = []" "\<forall>x\<in>set xs. \<not> is_yes x \<and> \<not> is_no x"
        then show ?thesis using ny nn by simp
      qed
    qed
  qed
qed


text \<open>
  Claim C10. Without the load flag and with a regular file at the fixed path,
  \<open>__init__\<close> asks for confirmation again after every answer that is neither y/yes nor
  n/no (an answer is compared after \<open>lower()\<close>, so "Y" or "No" count as well). On the
  first answer that is y/yes it returns with a fresh \<open>Qlearner\<close>; on n/no it prints
  "OK. Quitting." and exits with status 0 with no agent. However the run ends, the file
  system is unchanged, and a fresh agent exists exactly when \<open>__init__\<close> returned, which
  happens exactly when the first accepted answer was y/yes.
\<close>

theorem overwrite_confirmation:
  assumes "\<not> load a" and "fst (isfile ''./trained_agent.pkl'' w)"
  shows "(stdin w = bad @ r # rest \<and> (\<forall>x\<in>set bad. \<not> is_yes x \<and> \<not> is_no x)
            \<and> (is_yes r \<or> is_no r) \<longrightarrow>
          GameLearning_init a al ga ep w =
            (if is_yes r then
               (Returned,
                \<lparr>games_played = 0, agent_path = ''./trained_agent.pkl'',
                 agent = Some (Qlearner al ga ep)\<rparr>,
                w\<lparr>stdin := rest,
                  trace := trace w @ [IsFile ''./trained_agent.pkl'']
                    @ reprompts overwrite_prompt (length bad) @ [Prompt overwrite_prompt]\<rparr>)
             else
               (Exit 0,
                \<lparr>games_played = 0, agent_path = ''./trained_agent.pkl'', agent = None\<rparr>,
                w\<lparr>stdin := rest,
                  trace := trace w @ [IsFile ''./trained_agent.pkl'']
                    @ reprompts overwrite_prompt (length bad)
                    @ [Prompt overwrite_prompt, Print ''OK. Quitting.'']\<rparr>)))
       \<and> (GameLearning_init a al ga ep w = (out, gl, w') \<longrightarrow>
            fs w' = fs w
          \<and> (agent gl = None \<or> agent gl = Some (Qlearner al ga ep))
          \<and> (agent gl = Some (Qlearner al ga ep)) = (out = Returned)
          \<and> (out = Returned) =
              (\<exists>ys y zs. stdin w = ys @ y # zs
                   \<and> (\<forall>x\<in>set ys. \<not> is_yes x \<and> \<not> is_no x) \<and> is_yes y))"
proof (intro conjI impI)
  assume h: "stdin w = bad @ r # rest \<and> (\<forall>x\<in>set bad. \<not> is_yes x \<and> \<not> is_no x)
            \<and> (is_yes r \<or> is_no r)"
  then have co: "confirm_overwrite (stdin w) =
     (if is_yes r then
        (Returned, rest, reprompts overwrite_prompt (length bad) @ [Prompt overwrite_prompt])
      else
        (Exit 0, rest, reprompts overwrite_prompt (length bad)
           @ [Prompt overwrite_prompt, Print ''OK. Quitting.'']))"
    using confirm_overwrite_answer [of bad r rest] by simp
  obtain w1 where w1: "isfile ''./trained_agent.pkl'' w = (True, w1)"
    and w1_def: "w1 = emit [IsFile ''./trained_agent.pkl''] w"
    using assms(2) by (cases "isfile ''./trained_agent.pkl'' w") (auto simp: isfile_def)
  have st: "stdin w1 = stdin w" by (simp add: w1_def emit_def)
  show "GameLearning_init a al ga ep w =
            (if is_yes r then
               (Returned,
                \<lparr>games_played = 0, agent_path = ''./trained_agent.pkl'',
                 agent = Some (Qlearner al ga ep)\<rparr>,
                w\<lparr>stdin := rest,
                  trace := trace w @ [IsFile ''./trained_agent.pkl'']
                    @ reprompts overwrite_prompt (length bad) @ [Prompt overwrite_prompt]\<rparr>)
             else
               (Exit 0,
                \<lparr>games_played = 0, agent_path = ''./trained_agent.pkl'', agent = None\<rparr>,
                w\<lparr>stdin := rest,
                  trace := trace w @ [IsFile ''./trained_agent.pkl'']
                    @ reprompts overwrite_prompt (length bad)
                    @ [Prompt overwrite_prompt, Print ''OK. Quitting.'']\<rparr>))"
    using assms(1) w1 co
    by (simp add: GameLearning_init_def st) (simp add: w1_def emit_def)
next
  assume run: "GameLearning_init a al ga ep w = (out, gl, w')"
  obtain w1 where w1: "isfile ''./trained_agent.pkl'' w = (True, w1)"
    and w1_def: "w1 = emit [IsFile ''./trained_agent.pkl''] w"
    using assms(2) by (cases "isfile ''./trained_agent.pkl'' w") (auto simp: isfile_def)
  have st: "stdin w1 = stdin w" by (simp add: w1_def emit_def)
  obtain out1 rest1 evs1 where co: "confirm_overwrite (stdin w) = (out1, rest1, evs1)"
    by (cases "confirm_overwrite (stdin w)") auto
  have res: "out = out1 \<and> w' = emit evs1 (w1\<lparr>stdin := rest1\<rparr>)
      \<and> gl = \<lparr>games_played = 0, agent_path = ''./trained_agent.pkl'',
              agent = (if out1 = Returned then Some (Qlearner al ga ep) else None)\<rparr>"
    using run assms(1) w1 co
    by (cases out1) (auto simp: GameLearning_init_def st)
  then show "fs w' = fs w" by (simp add: w1_def emit_def)
  from res show "agent gl = None \<or> agent gl = Some (Qlearner al ga ep)" by simp
  from res show "(agent gl = Some (Qlearner al ga ep)) = (out = Returned)" by simp
  show "(out = Returned) =
      (\<exists>ys y zs. stdin w = ys @ y # zs \<and> (\<forall>x\<in>set ys. \<not> is_yes x \<and> \<not> is_no x) \<and> is_yes y)"
  proof
    assume "out = Returned"
    with res co confirm_overwrite_cases [of "stdin w" out1 rest1 evs1]
    show "\<exists>ys y zs. stdin w = ys @ y # zs \<and> (\<forall>x\<in>set ys. \<not> is_yes x \<and> \<not> is_no x) \<and> is_yes y"
      by auto
  next
    assume "\<exists>ys y zs. stdin w = ys @ y # zs \<and> (\<forall>x\<in>set ys. \<not> is_yes x \<and> \<not> is_no x) \<and> is_yes y"
    then obtain ys y zs where "stdin w = ys @ y # zs" "\<forall>x\<in>set ys. \<not> is_yes x \<and> \<not> is_no x" "is_yes y"
      by blast
    then have "confirm_overwrite (stdin w) =
        (Returned, zs, reprompts overwrite_prompt (length ys) @ [Prompt overwrite_prompt])"
      using confirm_overwrite_answer [of ys y zs] by auto
    with co res show "out = Returned" by simp
  qed
qed


theorem overwrite_confirmation_witness:
  "\<not> load \<lparr>load = False, teacher_episodes = None, plot = False\<rparr>
   \<and> fst (isfile ''./trained_agent.pkl''
         (start [''maybe'', ''Y'', ''x'']
            [''./trained_agent.pkl'' \<mapsto> Readable (Pickled (Qlearner 0.5 0.9 0.1))]))
   \<and> GameLearning_init \<lparr>load = False, teacher_episodes = None, plot = False\<rparr> 0.5 0.9 0.1
        (start [''maybe'', ''Y'', ''x'']
           [''./trained_agent.pkl'' \<mapsto> Readable (Pickled (Qlearner 0.5 0.9 0.1))])
      = (Returned,
         \<lparr>games_played = 0, agent_path = ''./trained_agent.pkl'',
          agent = Some (Qlearner 0.5 0.9 0.1)\<rparr>,
         \<lparr>stdin = [''x''],
          fs = [''./trained_agent.pkl'' \<mapsto> Readable (Pickled (Qlearner 0.5 0.9 0.1))],
          trace = [IsFile ''./trained_agent.pkl'', Prompt overwrite_prompt, Print invalid_input,
                   Prompt overwrite_prompt]\<rparr>)
   \<and> (\<exists>ys y zs. [''maybe'', ''Y'', ''x''] = ys @ y # zs
          \<and> (\<forall>x\<in>set ys. \<not> is_yes x \<and> \<not> is_no x) \<and> is_yes y)"
proof -
  let ?a = "\<lparr>load = False, teacher_episodes = None, plot = False\<rparr>"
  let ?w = "start [''maybe'', ''Y'', ''x'']
              [''./trained_agent.pkl'' \<mapsto> Readable (Pickled (Qlearner 0.5 0.9 0.1))]"
  let ?gl = "\<lparr>games_played = 0, agent_path = ''./trained_agent.pkl'',
          agent = Some (Qlearner 0.5 0.9 0.1)\<rparr>"
  let ?w' = "\<lparr>stdin = [''x''],
          fs = [''./trained_agent.pkl'' \<mapsto> Readable (Pickled (Qlearner 0.5 0.9 0.1))],
          trace = [IsFile ''./trained_agent.pkl'', Prompt overwrite_prompt, Print invalid_input,
                   Prompt overwrite_prompt]\<rparr>"
  have h1: "\<not> load ?a" by simp
  have h2: "fst (isfile ''./trained_agent.pkl'' ?w)" by (simp add: isfile_def start_def)
  have h3: "stdin ?w = [''maybe''] @ ''Y'' # [''x'']
      \<and> (\<forall>x\<in>set [''maybe'']. \<not> is_yes x \<and> \<not> is_no x) \<and> (is_yes ''Y'' \<or> is_no ''Y'')"
    by (simp add: start_def lower_def lower_char_def)
  have y: "is_yes ''Y''" by (simp add: lower_def lower_char_def)
  note inst = overwrite_confirmation [OF h1 h2, of "[''maybe'']" "''Y''" "[''x'']" "0.5" "0.9" "0.1"
      Returned ?gl ?w']
  from inst h3 y
  have "GameLearning_init ?a 0.5 0.9 0.1 ?w =
      (Returned,
       \<lparr>games_played = 0, agent_path = ''./trained_agent.pkl'',
        agent = Some (Qlearner 0.5 0.9 0.1)\<rparr>,
       ?w\<lparr>stdin := [''x''],
          trace := trace ?w @ [IsFile ''./trained_agent.pkl'']
             @ reprompts overwrite_prompt (length [''maybe'']) @ [Prompt overwrite_prompt]\<rparr>)"
    by presburger
  then have run: "GameLearning_init ?a 0.5 0.9 0.1 ?w = (Returned, ?gl, ?w')"
    by (simp add: start_def reprompts_def)
  with inst have "\<exists>ys y zs. stdin ?w = ys @ y # zs
          \<and> (\<forall>x\<in>set ys. \<not> is_yes x \<and> \<not> is_no x) \<and> is_yes y"
    by blast
  then have "\<exists>ys y zs. [''maybe'', ''Y'', ''x''] = ys @ y # zs
          \<and> (\<forall>x\<in>set ys. \<not> is_yes x \<and> \<not> is_no x) \<and> is_yes y"
    by (simp add: start_def)
  with h1 h2 run show ?thesis by blast
qed

section \<open>Load and plot\<close>

text \<open>
  Claim C4. With the load and plot flags both set and a loadable agent file at the
  fixed path, \<open>__init__\<close> (and so the script, when no training is requested) opens the
  file, renders the cumulative series of the loaded agent's rewards and exits with
  status 0. Nothing else happens: the trace gains only the opening and the plot (no
  game is constructed), \<open>games_played\<close> is 0, the agent of the object is the loaded one
  as it was in the file, and the file system and the pending input are unchanged.
\<close>

theorem load_and_plot:
  assumes "load a" and "plot a"
    and "fs w ''./trained_agent.pkl'' = Some (Readable (Pickled ag))"
  shows "GameLearning_new a w =
           (Exit 0,
            \<lparr>games_played = 0, agent_path = ''./trained_agent.pkl'', agent = Some ag\<rparr>,
            w\<lparr>trace := trace w @ [Open ''./trained_agent.pkl'',
                                   Plot (rendered_series (rewards ag))]\<rparr>)
       \<and> (teacher_episodes a = None \<longrightarrow>
           main g a w =
             (Exit 0,
              Some \<lparr>games_played = 0, agent_path = ''./trained_agent.pkl'', agent = Some ag\<rparr>,
              w\<lparr>trace := trace w @ [Open ''./trained_agent.pkl'',
                                     Plot (rendered_series (rewards ag))]\<rparr>))"
proof -
  have init: "GameLearning_new a w =
           (Exit 0,
            \<lparr>games_played = 0, agent_path = ''./trained_agent.pkl'', agent = Some ag\<rparr>,
            w\<lparr>trace := trace w @ [Open ''./trained_agent.pkl'',
                                   Plot (rendered_series (rewards ag))]\<rparr>)"
    using assms
    by (simp add: GameLearning_new_def GameLearning_init_def open_rb_def pickle_load_def
        plot_agent_reward_def emit_def)
  then show ?thesis using assms(1,2) by (simp add: main_def)
qed

theorem load_and_plot_witness:
  "main (\<lambda>t ag inp. Inr (ag, 0)) \<lparr>load = True, teacher_episodes = None, plot = True\<rparr>
     (start [''y'']
        [''./trained_agent.pkl'' \<mapsto> Readable (Pickled ((Qlearner 0.5 0.9 0.1)\<lparr>rewards := [1, -1, 1]\<rparr>))])
   = (Exit 0,
      Some \<lparr>games_played = 0, agent_path = ''./trained_agent.pkl'',
            agent = Some ((Qlearner 0.5 0.9 0.1)\<lparr>rewards := [1, -1, 1]\<rparr>)\<rparr>,
      \<lparr>stdin = [''y''],
       fs = [''./trained_agent.pkl'' \<mapsto> Readable (Pickled ((Qlearner 0.5 0.9 0.1)\<lparr>rewards := [1, -1, 1]\<rparr>))],
       trace = [Open ''./trained_agent.pkl'', Plot [1, 0, 1]]\<rparr>)"
proof -
  let ?ag = "(Qlearner 0.5 0.9 0.1)\<lparr>rewards := [1, -1, 1]\<rparr>"
  let ?a = "\<lparr>load = True, teacher_episodes = None, plot = True\<rparr>"
  let ?w = "start [''y''] [''./trained_agent.pkl'' \<mapsto> Readable (Pickled ?ag)]"
  have h: "fs ?w ''./trained_agent.pkl'' = Some (Readable (Pickled ?ag))"
    by (simp add: start_def)
  have ser: "rendered_series [1, -1, 1 :: real] = [1, 0, 1]"
    by (simp add: rendered_series_def plot_locals_final_def plot_body_def Let_def)
  from load_and_plot [of ?a ?w ?ag "\<lambda>t ag inp. Inr (ag, 0)", OF _ _ h]
  show ?thesis by (simp add: start_def ser)
qed

section \<open>Default hyperparameters\<close>

text \<open>
  Claim C8. \<open>GameLearning(args)\<close> without the load flag, whenever it returns, holds the
  agent \<open>Qlearner(0.5, 0.9, 0.1)\<close>: alpha is 0.5, gamma is 0.9 and epsilon is 0.1, and
  these lie in the ranges \<open>0 < alpha \<le> 1\<close>, \<open>0 \<le> gamma \<le> 1\<close>, \<open>0 \<le> epsilon \<le> 1\<close>. It
  does return when there is no agent file to overwrite.
\<close>

theorem default_hyperparameters:
  assumes "\<not> load a"
  shows "(GameLearning_new a w = (Returned, gl, w') \<longrightarrow>
            agent gl = Some (Qlearner 0.5 0.9 0.1)
          \<and> (\<exists>ag. agent gl = Some ag
                \<and> alpha ag = 0.5 \<and> gamma ag = 0.9 \<and> eps ag = 0.1
                \<and> 0 < alpha ag \<and> alpha ag \<le> 1
                \<and> 0 \<le> gamma ag \<and> gamma ag \<le> 1
                \<and> 0 \<le> eps ag \<and> eps ag \<le> 1))
       \<and> (\<not> fst (isfile ''./trained_agent.pkl'' w) \<longrightarrow> fst (GameLearning_new a w) = Returned)"
proof (intro conjI impI)
  assume run: "GameLearning_new a w = (Returned, gl, w')"
  have ag: "agent gl = Some (Qlearner 0.5 0.9 0.1)"
    using run assms
    by (auto simp: GameLearning_new_def GameLearning_init_def Let_def
        split: prod.splits bool.splits outcome.splits)
  then show "agent gl = Some (Qlearner 0.5 0.9 0.1)" .
  from ag show "\<exists>ag. agent gl = Some ag
                \<and> alpha ag = 0.5 \<and> gamma ag = 0.9 \<and> eps ag = 0.1
                \<and> 0 < alpha ag \<and> alpha ag \<le> 1
                \<and> 0 \<le> gamma ag \<and> gamma ag \<le> 1
                \<and> 0 \<le> eps ag \<and> eps ag \<le> 1"
    by (simp add: Qlearner_def)
next
  assume "\<not> fst (isfile ''./trained_agent.pkl'' w)"
  then show "fst (GameLearning_new a w) = Returned"
    using assms
    by (auto simp: GameLearning_new_def GameLearning_init_def Let_def
        split: prod.splits bool.splits)
qed

theorem default_hyperparameters_witness:
  "\<not> load \<lparr>load = False, teacher_episodes = Some 3, plot = False\<rparr>
   \<and> GameLearning_new \<lparr>load = False, teacher_episodes = Some 3, plot = False\<rparr> (start [] Map.empty)
      = (Returned,
         \<lparr>games_played = 0, agent_path = ''./trained_agent.pkl'',
          agent = Some (Qlearner 0.5 0.9 0.1)\<rparr>,
         \<lparr>stdin = [], fs = Map.empty, trace = [IsFile ''./trained_agent.pkl'']\<rparr>)
   \<and> agent \<lparr>games_played = 0, agent_path = ''./trained_agent.pkl'',
          agent = Some (Qlearner 0.5 0.9 0.1)\<rparr> = Some (Qlearner 0.5 0.9 0.1)"
proof -
  let ?a = "\<lparr>load = False, teacher_episodes = Some 3, plot = False\<rparr>"
  have h: "\<not> load ?a" by simp
  have run: "GameLearning_new ?a (start [] Map.empty)
      = (Returned,
         \<lparr>games_played = 0, agent_path = ''./trained_agent.pkl'',
          agent = Some (Qlearner 0.5 0.9 0.1)\<rparr>,
         \<lparr>stdin = [], fs = Map.empty, trace = [IsFile ''./trained_agent.pkl'']\<rparr>)"
    by (simp add: GameLearning_new_def GameLearning_init_def isfile_def start_def emit_def)
  from default_hyperparameters [OF h, of "start [] Map.empty"
      "\<lparr>games_played = 0, agent_path = ''./trained_agent.pkl'',
          agent = Some (Qlearner 0.5 0.9 0.1)\<rparr>"
      "\<lparr>stdin = [], fs = Map.empty, trace = [IsFile ''./trained_agent.pkl'']\<rparr>"] run
  have "agent \<lparr>games_played = 0, agent_path = ''./trained_agent.pkl'',
          agent = Some (Qlearner 0.5 0.9 0.1)\<rparr> = Some (Qlearner 0.5 0.9 0.1)"
    by blast
  with h run show ?thesis by blast
qed

section \<open>Training runs\<close>

lemma Game_start_Inr:
  "Game_start g t a w = (Inr a', w1) \<Longrightarrow>
     \<exists>n. g t a (stdin w) = Inr (a', n)
        \<and> w1 = emit [GameNew t, GameDone] (w\<lparr>stdin := drop n (stdin w)\<rparr>)"
  by (auto simp: Game_start_def split: sum.splits prod.splits)

lemma Game_start_Inl:
  "Game_start g t a w = (Inl e, w1) \<Longrightarrow>
     g t a (stdin w) = Inl e \<and> w1 = emit [GameNew t] w"
  by (auto simp: Game_start_def split: sum.splits prod.splits)

text \<open>
  What every run of the training loop does, whatever the games do: it only adds games
  and progress lines to the trace, leaves the files and the path alone, and counts one
  game for every game that came to its end.
\<close>

lemma teach_loop_run:
  "teach_loop g N self w = (out, self', w') \<Longrightarrow>
   \<exists>evs. trace w' = trace w @ evs \<and> set evs \<subseteq> teaching_events
     \<and> fs w' = fs w \<and> agent_path self' = agent_path self
     \<and> games_played self' = games_played self + int (count_list evs GameDone)
     \<and> (out = Returned \<longrightarrow>
          games_played self' = max (games_played self) N
        \<and> (agent self \<noteq> None \<longrightarrow> agent self' \<noteq> None))
     \<and> (out \<noteq> Returned \<longrightarrow>
          games_played self' < N
        \<and> (agent self = None \<and> out = Raised AttributeError
           \<or> (\<exists>e a inp. out = Raised e \<and> g True a inp = Inl e)))"
proof (induction g N self w arbitrary: out self' w' rule: teach_loop.induct)
  case (1 g episodes self w)
  show ?case
  proof (cases "games_played self < episodes")
    case False
    with "1.prems" have "out = Returned" "self' = self" "w' = w"
      by (simp_all add: teach_loop.simps)
    with False show ?thesis by (intro exI [of _ "[]"]) simp
  next
    case lt: True
    show ?thesis
    proof (cases "agent self")
      case None
      with lt "1.prems" have "out = Raised AttributeError" "self' = self" "w' = w"
        by (simp_all add: teach_loop.simps)
      with lt None show ?thesis by (intro exI [of _ "[]"]) simp
    next
      case (Some a)
      obtain r w1 where gs: "Game_start g True a w = (r, w1)"
        by (cases "Game_start g True a w") auto
      show ?thesis
      proof (cases r)
        case (Inl e)
        with gs lt Some "1.prems" have res: "out = Raised e" "self' = self" "w' = w1"
          by (simp_all add: teach_loop.simps)
        from gs Inl Game_start_Inl [of g True a w e w1]
        have g: "g True a (stdin w) = Inl e" and w1: "w1 = emit [GameNew True] w" by simp_all
        have "trace w' = trace w @ [GameNew True]" using res w1 by (simp add: emit_def)
        moreover have "fs w' = fs w" using res w1 by (simp add: emit_def)
        ultimately show ?thesis using res lt g
          by (intro exI [of _ "[GameNew True]"]) auto
      next
        case (Inr a')
        define self1 where "self1 = self\<lparr>agent := Some a', games_played := games_played self + 1\<rparr>"
        define w2 where "w2 = (if games_played self1 mod 1000 = 0
              then emit [PrintGamesPlayed (games_played self1)] w1 else w1)"
        from gs Inr obtain n where w1: "w1 = emit [GameNew True, GameDone] (w\<lparr>stdin := drop n (stdin w)\<rparr>)"
          using Game_start_Inr [of g True a w a' w1] by auto
        have rec: "teach_loop g episodes self1 w2 = (out, self', w')"
          using "1.prems" lt Some gs Inr
          by (subst (asm) teach_loop.simps) (auto simp add: self1_def w2_def Let_def)
        from "1.IH" [OF lt Some gs [symmetric] Inr self1_def rec [unfolded w2_def]]
        obtain evs where evs: "trace w' = trace w2 @ evs" "set evs \<subseteq> teaching_events"
          "fs w' = fs w2" "agent_path self' = agent_path self1"
          "games_played self' = games_played self1 + int (count_list evs GameDone)"
          "out = Returned \<longrightarrow> games_played self' = max (games_played self1) episodes
              \<and> (agent self1 \<noteq> None \<longrightarrow> agent self' \<noteq> None)"
          "out \<noteq> Returned \<longrightarrow> games_played self' < episodes
              \<and> (agent self1 = None \<and> out = Raised AttributeError
                 \<or> (\<exists>e a inp. out = Raised e \<and> g True a inp = Inl e))"
          unfolding w2_def by blast
        define pre where "pre = [GameNew True, GameDone] @
            (if games_played self1 mod 1000 = 0 then [PrintGamesPlayed (games_played self1)] else [])"
        have tr2: "trace w2 = trace w @ pre" and fs2: "fs w2 = fs w"
          by (simp_all add: w2_def w1 emit_def pre_def)
        have pre_set: "set pre \<subseteq> teaching_events" by (auto simp: pre_def)
        have pre_cnt: "count_list pre GameDone = 1" by (simp add: pre_def)
        have "trace w' = trace w @ (pre @ evs)" using evs(1) tr2 by simp
        moreover have "set (pre @ evs) \<subseteq> teaching_events" using pre_set evs(2) by auto
        moreover have "fs w' = fs w" using evs(3) fs2 by simp
        moreover have "agent_path self' = agent_path self" using evs(4) by (simp add: self1_def)
        moreover have "games_played self' = games_played self + int (count_list (pre @ evs) GameDone)"
          using evs(5) pre_cnt by (simp add: self1_def)
        moreover have "out = Returned \<longrightarrow> games_played self' = max (games_played self) episodes
              \<and> (agent self \<noteq> None \<longrightarrow> agent self' \<noteq> None)"
          using evs(6) lt by (auto simp: self1_def)
        moreover have "out \<noteq> Returned \<longrightarrow> games_played self' < episodes
              \<and> (agent self = None \<and> out = Raised AttributeError
                 \<or> (\<exists>e a inp. out = Raised e \<and> g True a inp = Inl e))"
          using evs(7) by (auto simp: self1_def)
        ultimately show ?thesis by blast
      qed
    qed
  qed
qed


text \<open>
  Claim C2, as stated, fails for a negative episode count, which the script accepts
  (\<open>-t -1\<close> parses as the integer \<open>-1\<close>): the loop condition \<open>0 < -1\<close> is false at once,
  no game is played, \<open>games_played\<close> is 0 and not \<open>-1\<close>, and the plot and the save
  happen although the requested count was never reached.
\<close>

theorem negative_episodes_no_game:
  "main (\<lambda>t ag inp. Inr (ag\<lparr>rewards := rewards ag @ [1]\<rparr>, 0))
      \<lparr>load = False, teacher_episodes = Some (- 1), plot = False\<rparr> (start [] Map.empty)
   = (Returned,
      Some \<lparr>games_played = 0, agent_path = ''./trained_agent.pkl'',
            agent = Some (Qlearner 0.5 0.9 0.1)\<rparr>,
      \<lparr>stdin = [],
       fs = [''./trained_agent.pkl'' \<mapsto> Readable (Pickled (Qlearner 0.5 0.9 0.1))],
       trace = [IsFile ''./trained_agent.pkl'', Plot [], Save ''./trained_agent.pkl'']\<rparr>)"
  by (simp add: main_def GameLearning_new_def GameLearning_init_def isfile_def start_def
      emit_def beginTeaching_def teach_loop.simps plot_agent_reward_def save_agent_def
      rendered_series_def plot_locals_final_def Qlearner_def)

lemma beginTeaching_run:
  assumes "agent self \<noteq> None" and "beginTeaching g N self w = (out, self', w')"
  shows "agent_path self' = agent_path self
       \<and> (out = Returned \<longrightarrow>
            games_played self' = max (games_played self) N
          \<and> (\<exists>evs ag. agent self' = Some ag
               \<and> trace w' = trace w @ evs
                    @ [Plot (rendered_series (rewards ag)), Save (agent_path self)]
               \<and> set evs \<subseteq> teaching_events
               \<and> games_played self' = games_played self + int (count_list evs GameDone)
               \<and> fs w' = (fs w)(agent_path self \<mapsto> Readable (Pickled ag))))
       \<and> (out \<noteq> Returned \<longrightarrow>
            (\<exists>e a inp. out = Raised e \<and> g True a inp = Inl e)
          \<and> games_played self' < N \<and> fs w' = fs w
          \<and> (\<exists>evs. trace w' = trace w @ evs \<and> set evs \<subseteq> teaching_events))"
proof -
  obtain out1 self1 w1 where tl: "teach_loop g N self w = (out1, self1, w1)"
    by (cases "teach_loop g N self w") auto
  from teach_loop_run [OF tl] obtain evs where evs:
    "trace w1 = trace w @ evs" "set evs \<subseteq> teaching_events"
    "fs w1 = fs w" "agent_path self1 = agent_path self"
    "games_played self1 = games_played self + int (count_list evs GameDone)"
    "out1 = Returned \<longrightarrow> games_played self1 = max (games_played self) N
        \<and> (agent self \<noteq> None \<longrightarrow> agent self1 \<noteq> None)"
    "out1 \<noteq> Returned \<longrightarrow> games_played self1 < N
        \<and> (agent self = None \<and> out1 = Raised AttributeError
           \<or> (\<exists>e a inp. out1 = Raised e \<and> g True a inp = Inl e))"
    by blast
  show ?thesis
  proof (cases "out1 = Returned")
    case True
    with evs(6) assms(1) obtain ag where ag: "agent self1 = Some ag" by auto
    from True ag tl assms(2) have res: "out = Returned" "self' = self1"
      "w' = save_agent ag (agent_path self1) (plot_agent_reward (rewards ag) w1)"
      by (auto simp add: beginTeaching_def)
    have gp: "games_played self' = max (games_played self) N" using evs(6) True res by simp
    have cnt: "games_played self' = games_played self + int (count_list evs GameDone)"
      using evs(5) res by simp
    have tr: "trace w' = trace w @ evs @ [Plot (rendered_series (rewards ag)), Save (agent_path self)]"
      using res evs(1,4) by (simp add: save_agent_def plot_agent_reward_def emit_def)
    have fsw: "fs w' = (fs w)(agent_path self \<mapsto> Readable (Pickled ag))"
      using res evs(3,4) by (simp add: save_agent_def plot_agent_reward_def emit_def)
    from res ag gp cnt tr fsw evs(2,4) show ?thesis by blast
  next
    case False
    with tl assms(2) have res: "out = out1" "self' = self1" "w' = w1"
      by (cases out1; simp add: beginTeaching_def)+
    from False evs(7) assms(1) have "\<exists>e a inp. out1 = Raised e \<and> g True a inp = Inl e"
      and "games_played self1 < N" by auto
    with res False evs(1,2,3,4) show ?thesis by blast
  qed
qed

text \<open>
  Claim C2, amended. \<open>beginTeaching(N)\<close> on a new \<open>GameLearning\<close> object (count 0, an
  agent present) plays games against the teacher while the count is below \<open>N\<close>, adding
  one to the count for every game that ends. If it returns, the count is \<open>N\<close> for
  \<open>N \<ge> 0\<close> (and 0 for \<open>N < 0\<close>); exactly that many games were completed; the loop
  emitted only games and progress lines (it never prompts); and the plot of the agent's
  rewards followed by the save to the agent path are the last two events, so they come
  only after the loop is over. If it does not return, a game raised: the count is below
  \<open>N\<close> and nothing was plotted or saved. When no game against the teacher raises, it
  returns.
\<close>

theorem teaching_run:
  assumes "games_played self = 0" and "agent self \<noteq> None"
    and "beginTeaching g N self w = (out, self', w')"
  shows "(out = Returned \<longrightarrow>
            games_played self' = max 0 N
          \<and> (\<exists>evs ag. agent self' = Some ag
               \<and> trace w' = trace w @ evs
                    @ [Plot (rendered_series (rewards ag)), Save (agent_path self)]
               \<and> set evs \<subseteq> teaching_events
               \<and> int (count_list evs GameDone) = max 0 N
               \<and> fs w' = (fs w)(agent_path self \<mapsto> Readable (Pickled ag))))
       \<and> (out \<noteq> Returned \<longrightarrow>
            (\<exists>e a inp. out = Raised e \<and> g True a inp = Inl e)
          \<and> games_played self' < N \<and> fs w' = fs w
          \<and> (\<exists>evs. trace w' = trace w @ evs \<and> set evs \<subseteq> teaching_events))
       \<and> ((\<forall>a inp e. g True a inp \<noteq> Inl e) \<longrightarrow> out = Returned)"
proof -
  note run = beginTeaching_run [OF assms(2,3)]
  have a: "out = Returned \<longrightarrow>
            games_played self' = max 0 N
          \<and> (\<exists>evs ag. agent self' = Some ag
               \<and> trace w' = trace w @ evs
                    @ [Plot (rendered_series (rewards ag)), Save (agent_path self)]
               \<and> set evs \<subseteq> teaching_events
               \<and> int (count_list evs GameDone) = max 0 N
               \<and> fs w' = (fs w)(agent_path self \<mapsto> Readable (Pickled ag)))"
  proof
    assume r: "out = Returned"
    with run assms(1) have gp: "games_played self' = max 0 N" by simp
    from run r obtain evs ag where e: "agent self' = Some ag"
      "trace w' = trace w @ evs @ [Plot (rendered_series (rewards ag)), Save (agent_path self)]"
      "set evs \<subseteq> teaching_events"
      "games_played self' = games_played self + int (count_list evs GameDone)"
      "fs w' = (fs w)(agent_path self \<mapsto> Readable (Pickled ag))"
      by blast
    from e(4) gp assms(1) have "int (count_list evs GameDone) = max 0 N" by simp
    with gp e(1,2,3,5) show "games_played self' = max 0 N
          \<and> (\<exists>evs ag. agent self' = Some ag
               \<and> trace w' = trace w @ evs
                    @ [Plot (rendered_series (rewards ag)), Save (agent_path self)]
               \<and> set evs \<subseteq> teaching_events
               \<and> int (count_list evs GameDone) = max 0 N
               \<and> fs w' = (fs w)(agent_path self \<mapsto> Readable (Pickled ag)))"
      by blast
  qed
  have b: "out \<noteq> Returned \<longrightarrow>
            (\<exists>e a inp. out = Raised e \<and> g True a inp = Inl e)
          \<and> games_played self' < N \<and> fs w' = fs w
          \<and> (\<exists>evs. trace w' = trace w @ evs \<and> set evs \<subseteq> teaching_events)"
    using run by blast
  have c: "(\<forall>a inp e. g True a inp \<noteq> Inl e) \<longrightarrow> out = Returned"
    using b by blast
  from a b c show ?thesis by blast
qed

theorem teaching_run_witness:
  "beginTeaching (\<lambda>t ag inp. Inr (ag\<lparr>rewards := rewards ag @ [1]\<rparr>, 0)) 2
      \<lparr>games_played = 0, agent_path = ''./trained_agent.pkl'',
       agent = Some (Qlearner 0.5 0.9 0.1)\<rparr> (start [] Map.empty)
   = (Returned,
      \<lparr>games_played = 2, agent_path = ''./trained_agent.pkl'',
       agent = Some ((Qlearner 0.5 0.9 0.1)\<lparr>rewards := [1, 1]\<rparr>)\<rparr>,
      \<lparr>stdin = [],
       fs = [''./trained_agent.pkl'' \<mapsto>
               Readable (Pickled ((Qlearner 0.5 0.9 0.1)\<lparr>rewards := [1, 1]\<rparr>))],
       trace = [GameNew True, GameDone, GameNew True, GameDone, Plot [1, 2],
                Save ''./trained_agent.pkl'']\<rparr>)
   \<and> games_played \<lparr>games_played = 2, agent_path = ''./trained_agent.pkl'',
       agent = Some ((Qlearner 0.5 0.9 0.1)\<lparr>rewards := [1, 1]\<rparr>)\<rparr> = max 0 2"
proof -
  let ?g = "\<lambda>t ag inp. Inr (ag\<lparr>rewards := rewards ag @ [1]\<rparr>, 0)
              :: exn + (qlearner \<times> nat)"
  let ?self = "\<lparr>games_played = 0, agent_path = ''./trained_agent.pkl'',
       agent = Some (Qlearner 0.5 0.9 0.1)\<rparr>"
  let ?self' = "\<lparr>games_played = 2, agent_path = ''./trained_agent.pkl'',
       agent = Some ((Qlearner 0.5 0.9 0.1)\<lparr>rewards := [1, 1]\<rparr>)\<rparr>"
  let ?w' = "\<lparr>stdin = [],
       fs = [''./trained_agent.pkl'' \<mapsto>
               Readable (Pickled ((Qlearner 0.5 0.9 0.1)\<lparr>rewards := [1, 1]\<rparr>))],
       trace = [GameNew True, GameDone, GameNew True, GameDone, Plot [1, 2],
                Save ''./trained_agent.pkl'']\<rparr>"
  have ser: "rendered_series [1, 1 :: real] = [1, 2]"
    by (simp add: rendered_series_def plot_locals_final_def plot_body_def Let_def)
  have run: "beginTeaching ?g 2 ?self (start [] Map.empty) = (Returned, ?self', ?w')"
    by (simp add: beginTeaching_def teach_loop.simps Game_start_def start_def emit_def
        plot_agent_reward_def save_agent_def Qlearner_def ser)
  have h1: "games_played ?self = 0" by simp
  have h2: "agent ?self \<noteq> None" by simp
  from teaching_run [OF h1 h2 run] have "games_played ?self' = max 0 2" by blast
  with run show ?thesis by blast
qed

section \<open>Interactive play\<close>

lemma play_again_loop_answer:
  assumes "\<forall>x\<in>set bad. \<not> is_yes x \<and> \<not> is_no x" and "is_yes r \<or> is_no r"
  shows "play_again_loop (bad @ r # rest) =
     (Inr (is_yes r), rest, reprompts play_prompt (length bad) @ [Prompt play_prompt])"
  using assms
proof (induction bad)
  case Nil
  then show ?case by (auto simp: reprompts_0)
next
  case (Cons x bad)
  then have IH: "play_again_loop (bad @ r # rest) =
     (Inr (is_yes r), rest, reprompts play_prompt (length bad) @ [Prompt play_prompt])"
    by simp
  from Cons.prems have x: "\<not> is_yes x" "\<not> is_no x" by simp_all
  have "play_again_loop ((x # bad) @ r # rest) =
      (case play_again_loop (bad @ r # rest) of
         (res, rest', evs) \<Rightarrow> (res, rest', [Prompt play_prompt, Print invalid_input] @ evs))"
    using x by simp
  then show ?case by (simp add: IH reprompts_Suc)
qed

lemma play_again_loop_events:
  "play_again_loop xs = (res, rest, evs) \<Longrightarrow>
     set evs \<subseteq> {Prompt play_prompt, Print invalid_input} \<and> count_list evs GameDone = 0"
proof (induction xs arbitrary: evs)
  case Nil
  then show ?case by auto
next
  case (Cons x xs)
  show ?case
  proof (cases "is_yes x \<or> is_no x")
    case True
    with Cons.prems show ?thesis by (auto split: if_splits)
  next
    case False
    then obtain evs' where rec: "play_again_loop xs = (res, rest, evs')"
      and evs: "evs = [Prompt play_prompt, Print invalid_input] @ evs'"
      using Cons.prems by (auto split: prod.splits)
    from Cons.IH [OF rec] evs show ?thesis by auto
  qed
qed

lemma play_again_run:
  "play_again self w = (res, w') \<Longrightarrow>
     \<exists>evs. trace w' = trace w @ evs \<and> set evs \<subseteq> playing_events
        \<and> count_list evs GameDone = 0 \<and> fs w' = fs w"
proof -
  assume pa: "play_again self w = (res, w')"
  obtain r rest evs where l: "play_again_loop (stdin w) = (r, rest, evs)"
    by (cases "play_again_loop (stdin w)") auto
  with pa have w': "w' = emit (PrintGamesPlayed (games_played self) # evs) (w\<lparr>stdin := rest\<rparr>)"
    by (simp add: play_again_def)
  from play_again_loop_events [OF l]
  have "set (PrintGamesPlayed (games_played self) # evs) \<subseteq> playing_events"
    and "count_list (PrintGamesPlayed (games_played self) # evs) GameDone = 0" by auto
  moreover have "trace w' = trace w @ PrintGamesPlayed (games_played self) # evs" "fs w' = fs w"
    using w' by (simp_all add: emit_def)
  ultimately show ?thesis by blast
qed

lemma playing_loop_run:
  "playing_loop g self w = (out, self', w') \<Longrightarrow>
   \<exists>evs. trace w' = trace w @ evs \<and> set evs \<subseteq> playing_events
     \<and> fs w' = fs w \<and> agent_path self' = agent_path self
     \<and> games_played self' = games_played self + int (count_list evs GameDone)
     \<and> (out = Returned \<longrightarrow> (\<exists>evs0. evs = evs0 @ [Print ''OK. Quitting.'']))
     \<and> (out \<noteq> Returned \<longrightarrow> (\<exists>e. out = Raised e))"
proof (induction g self w arbitrary: out self' w' rule: playing_loop.induct)
  case (1 g self w)
  show ?case
  proof (cases "agent self")
    case None
    with "1.prems" have "out = Raised AttributeError" "self' = self" "w' = w"
      by (simp_all add: playing_loop.simps)
    then show ?thesis by (intro exI [of _ "[]"]) simp
  next
    case (Some a)
    obtain r w1 where gs: "Game_start g False a w = (r, w1)"
      by (cases "Game_start g False a w") auto
    show ?thesis
    proof (cases r)
      case (Inl e)
      with gs Some "1.prems" have res: "out = Raised e" "self' = self" "w' = w1"
        by (simp_all add: playing_loop.simps)
      from gs Inl Game_start_Inl [of g False a w e w1]
      have w1: "w1 = emit [GameNew False] w" by simp
      have "trace w' = trace w @ [GameNew False]" "fs w' = fs w"
        using res w1 by (simp_all add: emit_def)
      then show ?thesis using res by (intro exI [of _ "[GameNew False]"]) auto
    next
      case (Inr a')
      define self1 where "self1 = self\<lparr>agent := Some a', games_played := games_played self + 1\<rparr>"
      from gs Inr obtain n where w1: "w1 = emit [GameNew False, GameDone] (w\<lparr>stdin := drop n (stdin w)\<rparr>)"
        using Game_start_Inr [of g False a w a' w1] by auto
      have tr1: "trace w1 = trace w @ [GameNew False, GameDone]" "fs w1 = fs w"
        by (simp_all add: w1 emit_def)
      obtain pr w2 where pa: "play_again self1 w1 = (pr, w2)"
        by (cases "play_again self1 w1") auto
      from play_again_run [OF pa] obtain evs2 where evs2:
        "trace w2 = trace w1 @ evs2" "set evs2 \<subseteq> playing_events"
        "count_list evs2 GameDone = 0" "fs w2 = fs w1" by blast
      have unfold: "playing_loop g self w =
          (case pr of
             Inl e \<Rightarrow> (Raised e, self1, w2)
           | Inr True \<Rightarrow> playing_loop g self1 w2
           | Inr False \<Rightarrow> (Returned, self1, emit [Print ''OK. Quitting.''] w2))"
        using Some gs Inr pa
        by (subst playing_loop.simps) (simp add: self1_def Let_def split: sum.splits bool.splits)
      show ?thesis
      proof (cases pr)
        case (Inl e)
        with unfold "1.prems" have res: "out = Raised e" "self' = self1" "w' = w2" by simp_all
        have "trace w' = trace w @ ([GameNew False, GameDone] @ evs2)"
          using res evs2(1) tr1 by simp
        moreover have "set ([GameNew False, GameDone] @ evs2) \<subseteq> playing_events"
          using evs2(2) by auto
        moreover have "games_played self' =
            games_played self + int (count_list ([GameNew False, GameDone] @ evs2) GameDone)"
          using res evs2(3) by (simp add: self1_def)
        moreover have "fs w' = fs w" "agent_path self' = agent_path self"
          using res evs2(4) tr1 by (simp_all add: self1_def)
        ultimately show ?thesis using res by blast
      next
        case (Inr b)
        show ?thesis
        proof (cases b)
          case False
          with Inr unfold "1.prems" have res: "out = Returned" "self' = self1"
            "w' = emit [Print ''OK. Quitting.''] w2" by simp_all
          let ?evs = "([GameNew False, GameDone] @ evs2) @ [Print ''OK. Quitting.'']"
          have "trace w' = trace w @ ?evs"
            using res evs2(1) tr1 by (simp add: emit_def)
          moreover have "set ?evs \<subseteq> playing_events" using evs2(2) by auto
          moreover have "games_played self' = games_played self + int (count_list ?evs GameDone)"
            using res evs2(3) by (simp add: self1_def)
          moreover have "fs w' = fs w" "agent_path self' = agent_path self"
            using res evs2(4) tr1 by (simp_all add: self1_def emit_def)
          ultimately show ?thesis using res by blast
        next
          case True
          with Inr unfold "1.prems" have rec: "playing_loop g self1 w2 = (out, self', w')"
            by simp
          have bT: "b = True" using True by simp
          from "1.IH" [OF Some gs [symmetric] \<open>r = Inr a'\<close> self1_def pa [symmetric] Inr bT rec]
          obtain evs where evs: "trace w' = trace w2 @ evs" "set evs \<subseteq> playing_events"
            "fs w' = fs w2" "agent_path self' = agent_path self1"
            "games_played self' = games_played self1 + int (count_list evs GameDone)"
            "out = Returned \<longrightarrow> (\<exists>evs0. evs = evs0 @ [Print ''OK. Quitting.''])"
            "out \<noteq> Returned \<longrightarrow> (\<exists>e. out = Raised e)"
            by blast
          let ?evs = "[GameNew False, GameDone] @ evs2 @ evs"
          have "trace w' = trace w @ ?evs" using evs(1) evs2(1) tr1 by simp
          moreover have "set ?evs \<subseteq> playing_events" using evs(2) evs2(2) by auto
          moreover have "games_played self' = games_played self + int (count_list ?evs GameDone)"
            using evs(5) evs2(3) by (simp add: self1_def)
          moreover have "fs w' = fs w" "agent_path self' = agent_path self"
            using evs(3,4) evs2(4) tr1 by (simp_all add: self1_def)
          moreover have "out = Returned \<longrightarrow> (\<exists>evs0. ?evs = evs0 @ [Print ''OK. Quitting.''])"
          proof
            assume "out = Returned"
            with evs(6) obtain evs0 where "evs = evs0 @ [Print ''OK. Quitting.'']" by blast
            then have "?evs = ([GameNew False, GameDone] @ evs2 @ evs0) @ [Print ''OK. Quitting.'']"
              by simp
            then show "\<exists>evs0. ?evs = evs0 @ [Print ''OK. Quitting.'']" by blast
          qed
          ultimately show ?thesis using evs(7) by blast
        qed
      qed
    qed
  qed
qed


text \<open>
  Claim C7. In interactive play the loop plays whole games: when a game has come to its
  end, the count goes up by one and the prompt is repeated after every answer that is
  neither y/yes nor n/no (answers are compared after \<open>lower()\<close>, so "YES" or "N" count
  as well); on y/yes the loop goes on with another game, on n/no it prints
  "OK. Quitting." and returns. Over a whole run the count has grown by exactly the
  number of completed games, a run that returns has ended with the user declining, and
  a run never ends through \<open>sys.exit\<close>: other than by returning it ends only by an
  exception (of a game, or \<open>EOFError\<close> when the input is exhausted).
\<close>

theorem interactive_play:
  assumes "agent self = Some a" and "g False a (stdin w) = Inr (a', n)"
    and "drop n (stdin w) = bad @ r # rest"
    and "\<forall>x\<in>set bad. \<not> is_yes x \<and> \<not> is_no x" and "is_yes r \<or> is_no r"
  shows "playing_loop g self w =
           (let self1 = self\<lparr>agent := Some a', games_played := games_played self + 1\<rparr>;
                w2 = w\<lparr>stdin := rest,
                       trace := trace w
                         @ [GameNew False, GameDone, PrintGamesPlayed (games_played self + 1)]
                         @ reprompts play_prompt (length bad) @ [Prompt play_prompt]\<rparr>
            in if is_yes r then playing_loop g self1 w2
               else (Returned, self1, emit [Print ''OK. Quitting.''] w2))
       \<and> (playing_loop g self w = (out, self', w') \<longrightarrow>
            (\<exists>evs. trace w' = trace w @ evs \<and> set evs \<subseteq> playing_events
               \<and> games_played self' = games_played self + int (count_list evs GameDone)
               \<and> (out = Returned \<longrightarrow> (\<exists>evs0. evs = evs0 @ [Print ''OK. Quitting.'']))
               \<and> (out \<noteq> Returned \<longrightarrow> (\<exists>e. out = Raised e))))"
proof (intro conjI impI)
  define self1 where "self1 = self\<lparr>agent := Some a', games_played := games_played self + 1\<rparr>"
  define w1 where "w1 = emit [GameNew False, GameDone] (w\<lparr>stdin := drop n (stdin w)\<rparr>)"
  define w2 where "w2 = w\<lparr>stdin := rest,
                       trace := trace w
                         @ [GameNew False, GameDone, PrintGamesPlayed (games_played self + 1)]
                         @ reprompts play_prompt (length bad) @ [Prompt play_prompt]\<rparr>"
  have gs: "Game_start g False a w = (Inr a', w1)"
    using assms(2) by (simp add: Game_start_def w1_def)
  have st1: "stdin w1 = bad @ r # rest" using assms(3) by (simp add: w1_def emit_def)
  have pl: "play_again_loop (stdin w1) =
      (Inr (is_yes r), rest, reprompts play_prompt (length bad) @ [Prompt play_prompt])"
    using play_again_loop_answer [OF assms(4,5), of rest] st1 by simp
  have pa: "play_again self1 w1 = (Inr (is_yes r), w2)"
    by (simp add: play_again_def pl) (simp add: w1_def w2_def emit_def self1_def)
  have "playing_loop g self w =
      (if is_yes r then playing_loop g self1 w2
       else (Returned, self1, emit [Print ''OK. Quitting.''] w2))"
    using assms(1) gs pa
    by (subst playing_loop.simps) (simp add: self1_def Let_def)
  then show "playing_loop g self w =
           (let self1 = self\<lparr>agent := Some a', games_played := games_played self + 1\<rparr>;
                w2 = w\<lparr>stdin := rest,
                       trace := trace w
                         @ [GameNew False, GameDone, PrintGamesPlayed (games_played self + 1)]
                         @ reprompts play_prompt (length bad) @ [Prompt play_prompt]\<rparr>
            in if is_yes r then playing_loop g self1 w2
               else (Returned, self1, emit [Print ''OK. Quitting.''] w2))"
    by (simp add: self1_def w2_def Let_def)
next
  assume "playing_loop g self w = (out, self', w')"
  from playing_loop_run [OF this]
  show "\<exists>evs. trace w' = trace w @ evs \<and> set evs \<subseteq> playing_events
               \<and> games_played self' = games_played self + int (count_list evs GameDone)
               \<and> (out = Returned \<longrightarrow> (\<exists>evs0. evs = evs0 @ [Print ''OK. Quitting.'']))
               \<and> (out \<noteq> Returned \<longrightarrow> (\<exists>e. out = Raised e))"
    by blast
qed

theorem interactive_play_witness:
  "playing_loop (\<lambda>t ag inp. Inr (ag, 1))
      \<lparr>games_played = 0, agent_path = ''./trained_agent.pkl'',
       agent = Some (Qlearner 0.5 0.9 0.1)\<rparr>
      (start [''4'', ''maybe'', ''YES'', ''0'', ''n''] Map.empty)
   = (Returned,
      \<lparr>games_played = 2, agent_path = ''./trained_agent.pkl'',
       agent = Some (Qlearner 0.5 0.9 0.1)\<rparr>,
      \<lparr>stdin = [], fs = Map.empty,
       trace = [GameNew False, GameDone, PrintGamesPlayed 1, Prompt play_prompt,
                Print invalid_input, Prompt play_prompt,
                GameNew False, GameDone, PrintGamesPlayed 2, Prompt play_prompt,
                Print ''OK. Quitting.'']\<rparr>)
   \<and> (\<exists>evs. [GameNew False, GameDone, PrintGamesPlayed 1, Prompt play_prompt,
                Print invalid_input, Prompt play_prompt,
                GameNew False, GameDone, PrintGamesPlayed 2, Prompt play_prompt,
                Print ''OK. Quitting.''] = [] @ evs
          \<and> (2::int) = 0 + int (count_list evs GameDone))"
proof -
  let ?g = "\<lambda>t ag inp. Inr (ag, 1) :: exn + (qlearner \<times> nat)"
  let ?self = "\<lparr>games_played = 0, agent_path = ''./trained_agent.pkl'',
       agent = Some (Qlearner 0.5 0.9 0.1)\<rparr>"
  let ?w = "start [''4'', ''maybe'', ''YES'', ''0'', ''n''] Map.empty"
  let ?self1 = "\<lparr>games_played = 1, agent_path = ''./trained_agent.pkl'',
       agent = Some (Qlearner 0.5 0.9 0.1)\<rparr>"
  let ?w2 = "\<lparr>stdin = [''0'', ''n''], fs = Map.empty,
       trace = [GameNew False, GameDone, PrintGamesPlayed 1, Prompt play_prompt,
                Print invalid_input, Prompt play_prompt]\<rparr>"
  let ?self' = "\<lparr>games_played = 2, agent_path = ''./trained_agent.pkl'',
        agent = Some (Qlearner 0.5 0.9 0.1)\<rparr>"
  let ?w' = "\<lparr>stdin = [], fs = Map.empty,
        trace = [GameNew False, GameDone, PrintGamesPlayed 1, Prompt play_prompt,
                Print invalid_input, Prompt play_prompt,
                GameNew False, GameDone, PrintGamesPlayed 2, Prompt play_prompt,
                Print ''OK. Quitting.'']\<rparr>"
  have h1: "agent ?self = Some (Qlearner 0.5 0.9 0.1)" by simp
  have h3: "drop 1 (stdin ?w) = [''maybe''] @ ''YES'' # [''0'', ''n'']" by (simp add: start_def)
  have h4: "\<forall>x\<in>set [''maybe'']. \<not> is_yes x \<and> \<not> is_no x"
    by (simp add: lower_def lower_char_def)
  have y: "is_yes ''YES''" by (simp add: lower_def lower_char_def)
  then have h5: "is_yes ''YES'' \<or> is_no ''YES''" by simp
  note inst1 = interactive_play [where g = ?g and self = ?self and w = ?w
        and a = "Qlearner 0.5 0.9 0.1" and a' = "Qlearner 0.5 0.9 0.1" and n = 1
        and bad = "[''maybe'']" and r = "''YES''" and rest = "[''0'', ''n'']"
        and out = Returned and self' = ?self' and w' = ?w']
  have step1: "playing_loop ?g ?self ?w = playing_loop ?g ?self1 ?w2"
    using inst1 h1 h3 h4 h5 y
    by (simp add: Let_def start_def reprompts_def)
  have i1: "agent ?self1 = Some (Qlearner 0.5 0.9 0.1)" by simp
  have i3: "drop 1 (stdin ?w2) = [] @ ''n'' # []" by simp
  have n: "\<not> is_yes ''n''" by (simp add: lower_def lower_char_def)
  have i5: "is_yes ''n'' \<or> is_no ''n''" by (simp add: lower_def lower_char_def)
  have step2: "playing_loop ?g ?self1 ?w2 = (Returned, ?self', ?w')"
    using interactive_play [where g = ?g and self = ?self1 and w = ?w2
        and a = "Qlearner 0.5 0.9 0.1" and a' = "Qlearner 0.5 0.9 0.1" and n = 1
        and bad = "[]" and r = "''n''" and rest = "[]"]
      i1 i3 i5 n
    by (simp add: Let_def reprompts_def emit_def)
  from step1 step2 have run: "playing_loop ?g ?self ?w = (Returned, ?self', ?w')" by simp
  have pre: "?g False (Qlearner 0.5 0.9 0.1) (stdin ?w) = Inr (Qlearner 0.5 0.9 0.1, 1)" by simp
  from inst1 [OF h1 pre h3 h4 h5] run
  have "\<exists>evs. trace ?w' = trace ?w @ evs
      \<and> games_played ?self' = games_played ?self + int (count_list evs GameDone)"
    by blast
  then have "\<exists>evs. [GameNew False, GameDone, PrintGamesPlayed 1, Prompt play_prompt,
                Print invalid_input, Prompt play_prompt,
                GameNew False, GameDone, PrintGamesPlayed 2, Prompt play_prompt,
                Print ''OK. Quitting.''] = [] @ evs
          \<and> (2::int) = 0 + int (count_list evs GameDone)"
    by (simp add: start_def)
  with run show ?thesis by blast
qed

section \<open>The agent path\<close>

lemma confirm_overwrite_events:
  "confirm_overwrite xs = (out, rest, evs) \<Longrightarrow> set evs \<subseteq> range Print \<union> range Prompt"
proof (induction xs arbitrary: evs)
  case Nil
  then show ?case by auto
next
  case (Cons x xs)
  show ?case
  proof (cases "is_yes x \<or> is_no x")
    case True
    with Cons.prems show ?thesis by (auto split: if_splits)
  next
    case False
    then obtain evs' where rec: "confirm_overwrite xs = (out, rest, evs')"
      and evs: "evs = [Prompt overwrite_prompt, Print invalid_input] @ evs'"
      using Cons.prems by (auto split: prod.splits)
    from Cons.IH [OF rec] evs show ?thesis by auto
  qed
qed

lemma GameLearning_init_run:
  assumes "GameLearning_init a al ga ep w = (out, gl, w1)"
  shows "agent_path gl = ''./trained_agent.pkl'' \<and> games_played gl = 0 \<and> fs w1 = fs w
       \<and> (out = Returned \<longrightarrow> agent gl \<noteq> None)
       \<and> (\<exists>evs. trace w1 = trace w @ evs \<and> set evs \<subseteq> init_events
             \<and> (load a \<longrightarrow> Open ''./trained_agent.pkl'' \<in> set evs))"
proof (cases "load a")
  case True
  let ?self = "\<lparr>games_played = 0, agent_path = ''./trained_agent.pkl'', agent = None\<rparr>"
  obtain r where op: "open_rb ''./trained_agent.pkl'' w = (r, emit [Open ''./trained_agent.pkl''] w)"
    by (simp add: open_rb_def)
  let ?w1 = "emit [Open ''./trained_agent.pkl''] w"
  have cases: "(\<exists>e. (out, gl, w1) = load_failed e ?self ?w1)
      \<or> (\<exists>ag. out = Exit 0 \<and> gl = ?self\<lparr>agent := Some ag\<rparr> \<and> w1 = plot_agent_reward (rewards ag) ?w1)
      \<or> (\<exists>ag. out = Returned \<and> gl = ?self\<lparr>agent := Some ag\<rparr> \<and> w1 = ?w1)"
  proof (cases r)
    case (Inl e)
    with assms True op have "(out, gl, w1) = load_failed e ?self ?w1"
      by (simp add: GameLearning_init_def Let_def)
    then show ?thesis by blast
  next
    case (Inr c)
    show ?thesis
    proof (cases "pickle_load c")
      case (Inl e)
      with assms True op \<open>r = Inr c\<close> have "(out, gl, w1) = load_failed e ?self ?w1"
        by (simp add: GameLearning_init_def Let_def)
      then show ?thesis by blast
    next
      case pl: (Inr ag)
      show ?thesis
      proof (cases "plot a")
        case True
        with assms \<open>load a\<close> op \<open>r = Inr c\<close> pl
        have "out = Exit 0 \<and> gl = ?self\<lparr>agent := Some ag\<rparr>
            \<and> w1 = plot_agent_reward (rewards ag) ?w1"
          by (simp add: GameLearning_init_def Let_def)
        then show ?thesis by blast
      next
        case False
        with assms \<open>load a\<close> op \<open>r = Inr c\<close> pl
        have "out = Returned \<and> gl = ?self\<lparr>agent := Some ag\<rparr> \<and> w1 = ?w1"
          by (simp add: GameLearning_init_def Let_def)
        then show ?thesis by blast
      qed
    qed
  qed
  then show ?thesis
  proof (elim disjE exE conjE)
    fix e assume lf: "(out, gl, w1) = load_failed e ?self ?w1"
    show ?thesis
    proof (cases "is_IOError e")
      case io: True
      with lf have "out = Exit 0" "gl = ?self"
        "w1 = emit [Print ''The agent file does not exist. Quitting.''] ?w1"
        by (simp_all add: load_failed_def)
      moreover from this have "trace w1 = trace w @ [Open ''./trained_agent.pkl'',
          Print ''The agent file does not exist. Quitting.'']" "fs w1 = fs w"
        by (simp_all add: emit_def)
      ultimately show ?thesis by auto
    next
      case False
      with lf have "out = Raised e" "gl = ?self" "w1 = ?w1" by (simp_all add: load_failed_def)
      moreover from this have "trace w1 = trace w @ [Open ''./trained_agent.pkl'']" "fs w1 = fs w"
        by (simp_all add: emit_def)
      ultimately show ?thesis by auto
    qed
  next
    fix ag assume "out = Exit 0" "gl = ?self\<lparr>agent := Some ag\<rparr>"
      "w1 = plot_agent_reward (rewards ag) ?w1"
    moreover from this have "trace w1 = trace w @ [Open ''./trained_agent.pkl'',
          Plot (rendered_series (rewards ag))]" "fs w1 = fs w"
      by (simp_all add: emit_def plot_agent_reward_def)
    ultimately show ?thesis by auto
  next
    fix ag assume "out = Returned" "gl = ?self\<lparr>agent := Some ag\<rparr>" "w1 = ?w1"
    moreover from this have "trace w1 = trace w @ [Open ''./trained_agent.pkl'']" "fs w1 = fs w"
      by (simp_all add: emit_def)
    ultimately show ?thesis by auto
  qed
next
  case False
  let ?self = "\<lparr>games_played = 0, agent_path = ''./trained_agent.pkl'', agent = None\<rparr>"
  let ?w1 = "emit [IsFile ''./trained_agent.pkl''] w"
  obtain b where isf: "isfile ''./trained_agent.pkl'' w = (b, ?w1)"
    by (simp add: isfile_def)
  show ?thesis
  proof (cases b)
    case nb: False
    with assms \<open>\<not> load a\<close> isf have "out = Returned" "gl = ?self\<lparr>agent := Some (Qlearner al ga ep)\<rparr>"
      "w1 = ?w1"
      by (simp_all add: GameLearning_init_def Let_def)
    moreover from this have "trace w1 = trace w @ [IsFile ''./trained_agent.pkl'']" "fs w1 = fs w"
      by (simp_all add: emit_def)
    ultimately show ?thesis using \<open>\<not> load a\<close> by auto
  next
    case True
    obtain out1 rest evs where co: "confirm_overwrite (stdin w) = (out1, rest, evs)"
      by (cases "confirm_overwrite (stdin w)") auto
    have st: "stdin ?w1 = stdin w" by (simp add: emit_def)
    have res: "out = out1 \<and> w1 = emit evs (?w1\<lparr>stdin := rest\<rparr>)
      \<and> gl = \<lparr>games_played = 0, agent_path = ''./trained_agent.pkl'',
              agent = (if out1 = Returned then Some (Qlearner al ga ep) else None)\<rparr>"
      using assms \<open>\<not> load a\<close> isf True co
      by (cases out1) (auto simp: GameLearning_init_def Let_def st)
    then have "trace w1 = trace w @ (IsFile ''./trained_agent.pkl'' # evs)" "fs w1 = fs w"
      by (simp_all add: emit_def)
    moreover have "set (IsFile ''./trained_agent.pkl'' # evs) \<subseteq> init_events"
      using confirm_overwrite_events [OF co] by auto
    ultimately show ?thesis using res \<open>\<not> load a\<close> by (intro conjI) (auto simp del: set_simps)
  qed
qed

text \<open>
  Claim C9. In every run of the script, whatever the flags, the input, the files and
  the games, every event that looks a path up, opens one or saves to one names
  \<open>./trained_agent.pkl\<close>, the path set in \<open>__init__\<close>, which the object keeps; no other
  path of the file system changes. A run with the load flag that reaches \<open>__init__\<close>
  opens that path, and a training run that returns has saved the agent to it as its last
  action.
\<close>

theorem fixed_agent_path:
  assumes "main g a w = (out, glo, w')"
  shows "\<exists>evs. trace w' = trace w @ evs
      \<and> named_paths evs \<subseteq> {''./trained_agent.pkl''}
      \<and> (\<forall>p. p \<noteq> ''./trained_agent.pkl'' \<longrightarrow> fs w' p = fs w p)
      \<and> (\<forall>gl. glo = Some gl \<longrightarrow> agent_path gl = ''./trained_agent.pkl'')
      \<and> (load a \<and> glo \<noteq> None \<longrightarrow> Open ''./trained_agent.pkl'' \<in> set evs)
      \<and> (teacher_episodes a \<noteq> None \<and> out = Returned \<longrightarrow>
           (\<exists>evs0 gl ag. evs = evs0 @ [Save ''./trained_agent.pkl'']
               \<and> glo = Some gl \<and> agent gl = Some ag
               \<and> fs w' = (fs w)(''./trained_agent.pkl'' \<mapsto> Readable (Pickled ag))))"
proof (cases "plot a \<and> (\<not> load a \<or> teacher_episodes a \<noteq> None)")
  case True
  with assms have "glo = None" "w' = w" "out \<noteq> Returned"
    by (auto simp: main_def split: if_splits)
  then show ?thesis by (intro exI [of _ "[]"]) simp
next
  case False
  obtain out1 gl1 w1 where init: "GameLearning_new a w = (out1, gl1, w1)"
    by (cases "GameLearning_new a w") auto
  from GameLearning_init_run [OF init [unfolded GameLearning_new_def]]
  obtain evs1 where i: "agent_path gl1 = ''./trained_agent.pkl''" "games_played gl1 = 0"
    "fs w1 = fs w" "out1 = Returned \<longrightarrow> agent gl1 \<noteq> None"
    "trace w1 = trace w @ evs1" "set evs1 \<subseteq> init_events"
    "load a \<longrightarrow> Open ''./trained_agent.pkl'' \<in> set evs1"
    by blast
  have np1: "named_paths evs1 \<subseteq> {''./trained_agent.pkl''}" using i(6) by auto
  show ?thesis
  proof (cases "out1 = Returned")
    case nr: False
    with assms False init have res: "out = out1" "glo = Some gl1" "w' = w1"
      by (cases out1; auto simp: main_def)+
    with nr i np1 show ?thesis by (intro exI [of _ evs1]) simp
  next
    case ret: True
    with i(4) have ag1: "agent gl1 \<noteq> None" by simp
    show ?thesis
    proof (cases "teacher_episodes a")
      case (Some n)
      obtain gl2 where bt: "beginTeaching g n gl1 w1 = (out, gl2, w')" and glo: "glo = Some gl2"
        using assms False init ret Some by (auto simp: main_def split: prod.splits)
      note run = beginTeaching_run [OF ag1 bt]
      then have path2: "agent_path gl2 = ''./trained_agent.pkl''" using i(1) by simp
      show ?thesis
      proof (cases "out = Returned")
        case True
        with run i(1) obtain evs ag where e: "agent gl2 = Some ag"
          "trace w' = trace w1 @ evs
              @ [Plot (rendered_series (rewards ag)), Save ''./trained_agent.pkl'']"
          "set evs \<subseteq> teaching_events"
          "fs w' = (fs w1)(''./trained_agent.pkl'' \<mapsto> Readable (Pickled ag))"
          by auto
        let ?evs0 = "evs1 @ evs @ [Plot (rendered_series (rewards ag))]"
        let ?evs = "?evs0 @ [Save ''./trained_agent.pkl'']"
        have t: "trace w' = trace w @ ?evs" using e(2) i(5) by simp
        have np: "named_paths ?evs \<subseteq> {''./trained_agent.pkl''}" using np1 e(3) by auto
        have f: "fs w' = (fs w)(''./trained_agent.pkl'' \<mapsto> Readable (Pickled ag))"
          using e(4) i(3) by simp
        then have f': "\<forall>p. p \<noteq> ''./trained_agent.pkl'' \<longrightarrow> fs w' p = fs w p" by simp
        have op: "load a \<longrightarrow> Open ''./trained_agent.pkl'' \<in> set ?evs" using i(7) by simp
        have sv: "\<exists>evs0 gl ag. ?evs = evs0 @ [Save ''./trained_agent.pkl'']
               \<and> glo = Some gl \<and> agent gl = Some ag
               \<and> fs w' = (fs w)(''./trained_agent.pkl'' \<mapsto> Readable (Pickled ag))"
          using glo e(1) f by blast
        from t np f' op sv glo path2 show ?thesis by (intro exI [of _ ?evs]) simp
      next
        case nret: False
        with run obtain evs where e: "fs w' = fs w1" "trace w' = trace w1 @ evs"
          "set evs \<subseteq> teaching_events" by blast
        have t: "trace w' = trace w @ (evs1 @ evs)" using e(2) i(5) by simp
        have np: "named_paths (evs1 @ evs) \<subseteq> {''./trained_agent.pkl''}" using np1 e(3) by auto
        have op: "load a \<longrightarrow> Open ''./trained_agent.pkl'' \<in> set (evs1 @ evs)" using i(7) by simp
        from t np op nret glo path2 e(1) i(3) show ?thesis
          by (intro exI [of _ "evs1 @ evs"]) simp
      qed
    next
      case None
      obtain gl2 where bp: "beginPlaying g gl1 w1 = (out, gl2, w')" and glo: "glo = Some gl2"
        using assms False init ret None by (auto simp: main_def split: prod.splits)
      let ?greeting = "Print ''Welcome to Tic-Tac-Toe. You are 'X' and the computer is 'O'.''"
      from playing_loop_run [OF bp [unfolded beginPlaying_def]]
      obtain evs where e: "trace w' = trace (emit [?greeting] w1) @ evs"
        "set evs \<subseteq> playing_events" "fs w' = fs (emit [?greeting] w1)"
        "agent_path gl2 = agent_path gl1"
        by blast
      let ?evs = "evs1 @ ?greeting # evs"
      have t: "trace w' = trace w @ ?evs" using e(1) i(5) by (simp add: emit_def)
      have np: "named_paths ?evs \<subseteq> {''./trained_agent.pkl''}" using np1 e(2) by auto
      have f: "fs w' = fs w" using e(3) i(3) by (simp add: emit_def)
      have op: "load a \<longrightarrow> Open ''./trained_agent.pkl'' \<in> set ?evs" using i(7) by simp
      from t np f op glo e(4) i(1) None show ?thesis by (intro exI [of _ ?evs]) simp
    qed
  qed
qed

theorem fixed_agent_path_witness:
  "main (\<lambda>t ag inp. Inr (ag\<lparr>rewards := rewards ag @ [1]\<rparr>, 0))
      \<lparr>load = True, teacher_episodes = Some 1, plot = False\<rparr>
      (start [] [''./trained_agent.pkl'' \<mapsto> Readable (Pickled (Qlearner 0.5 0.9 0.1))])
   = (Returned,
      Some \<lparr>games_played = 1, agent_path = ''./trained_agent.pkl'',
            agent = Some ((Qlearner 0.5 0.9 0.1)\<lparr>rewards := [1]\<rparr>)\<rparr>,
      \<lparr>stdin = [],
       fs = [''./trained_agent.pkl'' \<mapsto>
               Readable (Pickled ((Qlearner 0.5 0.9 0.1)\<lparr>rewards := [1]\<rparr>))],
       trace = [Open ''./trained_agent.pkl'', GameNew True, GameDone, Plot [1],
                Save ''./trained_agent.pkl'']\<rparr>)
   \<and> (\<exists>evs. [Open ''./trained_agent.pkl'', GameNew True, GameDone, Plot [1],
                Save ''./trained_agent.pkl''] = [] @ evs
          \<and> named_paths evs \<subseteq> {''./trained_agent.pkl''})"
proof -
  let ?g = "\<lambda>t ag inp. Inr (ag\<lparr>rewards := rewards ag @ [1]\<rparr>, 0) :: exn + (qlearner \<times> nat)"
  let ?a = "\<lparr>load = True, teacher_episodes = Some 1, plot = False\<rparr>"
  let ?w = "start [] [''./trained_agent.pkl'' \<mapsto> Readable (Pickled (Qlearner 0.5 0.9 0.1))]"
  let ?gl = "\<lparr>games_played = 1, agent_path = ''./trained_agent.pkl'',
            agent = Some ((Qlearner 0.5 0.9 0.1)\<lparr>rewards := [1]\<rparr>)\<rparr>"
  let ?w' = "\<lparr>stdin = [],
       fs = [''./trained_agent.pkl'' \<mapsto>
               Readable (Pickled ((Qlearner 0.5 0.9 0.1)\<lparr>rewards := [1]\<rparr>))],
       trace = [Open ''./trained_agent.pkl'', GameNew True, GameDone, Plot [1],
                Save ''./trained_agent.pkl'']\<rparr>"
  have ser: "rendered_series [1 :: real] = [1]"
    by (simp add: rendered_series_def plot_locals_final_def plot_body_def Let_def)
  have run: "main ?g ?a ?w = (Returned, Some ?gl, ?w')"
    by (simp add: main_def GameLearning_new_def GameLearning_init_def open_rb_def
        pickle_load_def beginTeaching_def teach_loop.simps Game_start_def start_def emit_def
        plot_agent_reward_def save_agent_def Qlearner_def ser)
  from fixed_agent_path [OF run]
  have "\<exists>evs. trace ?w' = trace (?w) @ evs \<and> named_paths evs \<subseteq> {''./trained_agent.pkl''}"
    by blast
  then have "\<exists>evs. [Open ''./trained_agent.pkl'', GameNew True, GameDone, Plot [1],
                Save ''./trained_agent.pkl''] = [] @ evs
          \<and> named_paths evs \<subseteq> {''./trained_agent.pkl''}"
    by (simp add: start_def)
  with run show ?thesis by blast
qed

end
